theory Spec2Isabelle
  imports Complex_Main "HOL-Library.Finite_Map" "HOL-Library.AList"
begin

section \<open>Photo organizer (photos.py): a shallow embedding\<close>

text \<open>
  The script walks a source tree, resolves a best date for each file, creates a
  directory \<open>dest/category/YYYY/YYYY-MM\<close> and copies the file there without
  overwriting. The embedding keeps the script's function names. The Python
  library calls the script makes (\<open>os.path\<close>, \<open>os.makedirs\<close>, \<open>shutil.copy2\<close>,
  \<open>time.strftime\<close>, \<open>PIL.Image\<close>) are modelled by small functions over an
  explicit file system; what each of them abstracts is said where it is defined.
\<close>

subsection \<open>Python strings\<close>

text \<open>\<open>s.split(c)\<close> for a one-character separator: never the empty list.\<close>

fun str_split :: "char \<Rightarrow> string \<Rightarrow> string list" where
  "str_split c [] = [[]]"
| "str_split c (x # xs) =
     (let ps = str_split c xs
      in if x = c then [] # ps else (x # hd ps) # tl ps)"

text \<open>\<open>sep.join(parts)\<close>.\<close>

fun str_join :: "string \<Rightarrow> string list \<Rightarrow> string" where
  "str_join sep [] = []"
| "str_join sep [p] = p"
| "str_join sep (p # q # ps) = p @ sep @ str_join sep (q # ps)"

text \<open>\<open>str(n)\<close> for a non-negative integer: its decimal digits.\<close>

definition digit_char :: "nat \<Rightarrow> char" where
  "digit_char d = ''0123456789'' ! d"

fun str :: "nat \<Rightarrow> string" where
  "str n = (if n < 10 then [digit_char n] else str (n div 10) @ [digit_char (n mod 10)])"

declare str.simps [simp del]

text \<open>\<open>s.lower()\<close>, on ASCII letters (strings are byte strings here).\<close>

definition lower_char :: "char \<Rightarrow> char" where
  "lower_char c =
     (case map_of (zip ''ABCDEFGHIJKLMNOPQRSTUVWXYZ'' ''abcdefghijklmnopqrstuvwxyz'') c of
        Some l \<Rightarrow> l
      | None \<Rightarrow> c)"

definition lower :: "string \<Rightarrow> string" where
  "lower s = map lower_char s"

subsection \<open>Errors and the file system\<close>

datatype error =
    IndexError
  | FileNotFoundError
  | FileExistsError
  | NotADirectoryError
  | IsADirectoryError
  | ImageError
  | OSError

text \<open>
  What the script reads of a file: its two time stamps (seconds since the epoch)
  and what \<open>Image.open(path)._getexif()\<close> does on it: raise, return \<open>None\<close>, or
  return a dictionary from tag numbers to values.
\<close>

record file_info =
  ctime :: real
  mtime :: real
  exif :: "error + (nat \<times> string) list option"

datatype node = Dir | File file_info

text \<open>
  The file system maps path strings to nodes. Paths are compared as strings:
  there is no normalisation, no symbolic link and no case folding.
\<close>

type_synonym filesystem = "(string, node) fmap"

definition os_path_exists :: "filesystem \<Rightarrow> string \<Rightarrow> bool" where
  "os_path_exists fs p = (fmlookup fs p \<noteq> None)"

definition os_path_getctime :: "filesystem \<Rightarrow> string \<Rightarrow> error + real" where
  "os_path_getctime fs p =
     (case fmlookup fs p of
        None \<Rightarrow> Inl FileNotFoundError
      | Some Dir \<Rightarrow> Inl IsADirectoryError
      | Some (File f) \<Rightarrow> Inr (ctime f))"

definition os_path_getmtime :: "filesystem \<Rightarrow> string \<Rightarrow> error + real" where
  "os_path_getmtime fs p =
     (case fmlookup fs p of
        None \<Rightarrow> Inl FileNotFoundError
      | Some Dir \<Rightarrow> Inl IsADirectoryError
      | Some (File f) \<Rightarrow> Inr (mtime f))"

text \<open>\<open>Image.open(p)\<close> followed by \<open>._getexif()\<close>.\<close>

definition Image_open_getexif ::
  "filesystem \<Rightarrow> string \<Rightarrow> error + (nat \<times> string) list option" where
  "Image_open_getexif fs p =
     (case fmlookup fs p of
        None \<Rightarrow> Inl FileNotFoundError
      | Some Dir \<Rightarrow> Inl IsADirectoryError
      | Some (File f) \<Rightarrow> exif f)"

subsection \<open>Local time and \<open>time.strftime\<close>\<close>

record struct_time =
  tm_year :: int
  tm_mon :: nat
  tm_mday :: nat
  tm_hour :: nat
  tm_min :: nat
  tm_sec :: nat

text \<open>The ranges \<open>time.localtime\<close> produces (and \<open>time.strftime\<close> accepts).\<close>

definition valid_tm :: "struct_time \<Rightarrow> bool" where
  "valid_tm tm =
     (1 \<le> tm_mon tm \<and> tm_mon tm \<le> 12 \<and> 1 \<le> tm_mday tm \<and> tm_mday tm \<le> 31 \<and>
      tm_hour tm \<le> 23 \<and> tm_min tm \<le> 59 \<and> tm_sec tm \<le> 61)"

text \<open>\<open>str(i)\<close> for any integer, as \<open>%Y\<close> prints the year.\<close>

definition str_int :: "int \<Rightarrow> string" where
  "str_int i = (if i < 0 then CHR ''-'' # str (nat (- i)) else str (nat i))"

definition pad2 :: "nat \<Rightarrow> string" where
  "pad2 n = (if n < 10 then CHR ''0'' # str n else str n)"

text \<open>
  The directives the script can meet. \<open>%Y\<close> is the year in decimal, \<open>%H\<close> the hour
  of the 24-hour clock, \<open>%I\<close> the hour of the 12-hour clock (01 to 12).
\<close>

definition directive :: "char \<Rightarrow> struct_time \<Rightarrow> string" where
  "directive d tm =
     (if d = CHR ''Y'' then str_int (tm_year tm)
      else if d = CHR ''m'' then pad2 (tm_mon tm)
      else if d = CHR ''d'' then pad2 (tm_mday tm)
      else if d = CHR ''H'' then pad2 (tm_hour tm)
      else if d = CHR ''I'' then pad2 (if tm_hour tm mod 12 = 0 then 12 else tm_hour tm mod 12)
      else if d = CHR ''M'' then pad2 (tm_min tm)
      else if d = CHR ''S'' then pad2 (tm_sec tm)
      else [CHR ''%'', d])"

fun strftime :: "string \<Rightarrow> struct_time \<Rightarrow> string" where
  "strftime [] tm = []"
| "strftime [c] tm = [c]"
| "strftime (c # d # fmt) tm =
     (if c = CHR ''%'' then directive d tm @ strftime fmt tm
      else c # strftime (d # fmt) tm)"

text \<open>
  What the run takes from outside the file system: the time zone, as the
  function \<open>time.localtime\<close>, and the clock that stamps a new file.
  \<open>time.localtime\<close> raises on a time stamp it cannot convert (one too far from
  the epoch for the platform).
\<close>

record world =
  localtime :: "real \<Rightarrow> error + struct_time"
  now :: real

subsection \<open>\<open>get_best_date\<close>\<close>

text \<open>
  The \<open>try\<close> block leaves \<open>info\<close> at \<open>None\<close> on any exception. \<open>info and 36867 in info\<close>
  holds for a non-empty dictionary with the key 36867. The calls of the fallback
  branch stand outside the \<open>try\<close>: what they raise, \<open>get_best_date\<close> raises.
\<close>

definition get_best_date :: "world \<Rightarrow> filesystem \<Rightarrow> string \<Rightarrow> error + (string \<times> bool)" where
  "get_best_date w fs full_path =
     (let info = (case Image_open_getexif fs full_path of Inl e \<Rightarrow> None | Inr i \<Rightarrow> i)
      in case (case info of None \<Rightarrow> None
                          | Some d \<Rightarrow> if d \<noteq> [] then map_of d 36867 else None) of
           Some best_date \<Rightarrow> Inr (best_date, True)
         | None \<Rightarrow>
             (case os_path_getctime fs full_path of
                Inl e \<Rightarrow> Inl e
              | Inr created_date \<Rightarrow>
                  (case os_path_getmtime fs full_path of
                     Inl e \<Rightarrow> Inl e
                   | Inr modified_date \<Rightarrow>
                       (let ctime = (if modified_date < created_date
                                     then modified_date else created_date)
                        in case localtime w ctime of
                             Inl e \<Rightarrow> Inl e
                           | Inr tm \<Rightarrow> Inr (strftime ''%Y:%m:%d %I:%M:%S'' tm, False)))))"

text \<open>
  A file has a readable DateTimeOriginal tag when reading its metadata returns a
  dictionary that holds tag 36867.
\<close>

definition readable_tag :: "file_info \<Rightarrow> string option" where
  "readable_tag f =
     (case exif f of Inr (Some d) \<Rightarrow> map_of d 36867 | _ \<Rightarrow> None)"

subsection \<open>\<open>os.path\<close>: join, splitext, basename, dirname\<close>

text \<open>
  The POSIX flavour of \<open>os.path\<close> (separator \<open>/\<close>). \<open>os.path.join(a, *ps)\<close>: a
  component that starts with the separator replaces what was joined so far.
\<close>

definition join2 :: "string \<Rightarrow> string \<Rightarrow> string" where
  "join2 path b =
     (if b \<noteq> [] \<and> hd b = CHR ''/'' then b
      else if path = [] \<or> last path = CHR ''/'' then path @ b
      else path @ ''/'' @ b)"

definition os_path_join :: "string \<Rightarrow> string list \<Rightarrow> string" where
  "os_path_join a ps = foldl join2 a ps"

text \<open>\<open>s.rfind(c)\<close>: the last index of \<open>c\<close>, or -1.\<close>

fun find_last :: "char \<Rightarrow> string \<Rightarrow> nat \<Rightarrow> int \<Rightarrow> int" where
  "find_last c [] i found = found"
| "find_last c (x # xs) i found = find_last c xs (i + 1) (if x = c then int i else found)"

definition rfind :: "char \<Rightarrow> string \<Rightarrow> int" where
  "rfind c s = find_last c s 0 (- 1)"

text \<open>
  \<open>os.path.splitext\<close>: the extension starts at the last dot of the last component,
  unless only dots stand before it in that component.
\<close>

definition os_path_splitext :: "string \<Rightarrow> string \<times> string" where
  "os_path_splitext p =
     (let sepIndex = rfind CHR ''/'' p;
          dotIndex = rfind CHR ''.'' p
      in if dotIndex > sepIndex \<and>
            list_ex (\<lambda>ch. ch \<noteq> CHR ''.'')
              (take (nat dotIndex - nat (sepIndex + 1)) (drop (nat (sepIndex + 1)) p))
         then (take (nat dotIndex) p, drop (nat dotIndex) p)
         else (p, []))"

definition os_path_basename :: "string \<Rightarrow> string" where
  "os_path_basename p = drop (nat (rfind CHR ''/'' p + 1)) p"

fun rstrip :: "char \<Rightarrow> string \<Rightarrow> string" where
  "rstrip c s = rev (dropWhile (\<lambda>x. x = c) (rev s))"

definition os_path_dirname :: "string \<Rightarrow> string" where
  "os_path_dirname p =
     (let head = take (nat (rfind CHR ''/'' p + 1)) p
      in if head \<noteq> [] \<and> list_ex (\<lambda>ch. ch \<noteq> CHR ''/'') head then rstrip CHR ''/'' head else head)"

subsection \<open>\<open>os.makedirs\<close> and \<open>shutil.copy2\<close>\<close>

text \<open>
  The directories above a path: its proper prefixes that end before a separator.
\<close>

fun ancestors_from :: "string \<Rightarrow> string \<Rightarrow> string list" where
  "ancestors_from seen [] = []"
| "ancestors_from seen (c # cs) =
     (if c = CHR ''/'' \<and> seen \<noteq> [] \<and> last seen \<noteq> CHR ''/'' then [seen] else [])
     @ ancestors_from (seen @ [c]) cs"

definition ancestors :: "string \<Rightarrow> string list" where
  "ancestors p = ancestors_from [] p"

definition mkdir_missing :: "string \<Rightarrow> filesystem \<Rightarrow> filesystem" where
  "mkdir_missing d fs = (if os_path_exists fs d then fs else fmupd d Dir fs)"

text \<open>
  \<open>os.makedirs(p)\<close> creates the leaf directory and every missing directory above
  it. It raises when the leaf exists already, or when a regular file stands where
  a directory is needed.
\<close>

definition os_makedirs :: "filesystem \<Rightarrow> string \<Rightarrow> error + filesystem" where
  "os_makedirs fs p =
     (if p = [] then Inl FileNotFoundError
      else if os_path_exists fs p then Inl FileExistsError
      else if list_ex (\<lambda>d. case fmlookup fs d of Some (File f) \<Rightarrow> True | _ \<Rightarrow> False) (ancestors p)
      then Inl NotADirectoryError
      else Inr (fold mkdir_missing (ancestors p @ [p]) fs))"

text \<open>
  \<open>shutil.copy2(src, dst)\<close> copies the content and the metadata of a regular file:
  the copy keeps the modification time, and is created at the time of the call.
  A destination that is a directory receives the file under its base name. The
  call raises when the source is no regular file or the destination's directory
  does not exist.
\<close>

definition shutil_copy2 :: "world \<Rightarrow> filesystem \<Rightarrow> string \<Rightarrow> string \<Rightarrow> error + filesystem" where
  "shutil_copy2 w fs src dst =
     (case fmlookup fs src of
        None \<Rightarrow> Inl FileNotFoundError
      | Some Dir \<Rightarrow> Inl IsADirectoryError
      | Some (File f) \<Rightarrow>
          (let dst' = (if fmlookup fs dst = Some Dir
                       then os_path_join dst [os_path_basename src] else dst);
               parent = os_path_dirname dst'
           in if fmlookup fs dst' = Some Dir then Inl IsADirectoryError
              else if list_ex (\<lambda>ch. ch \<noteq> CHR ''/'') parent \<and> fmlookup fs parent \<noteq> Some Dir
              then Inl FileNotFoundError
              else Inr (fmupd dst' (File (f\<lparr>ctime := now w\<rparr>)) fs)))"

subsection \<open>\<open>create_dir\<close>\<close>

text \<open>\<open>parts[1]\<close> raises IndexError when the date string has no colon.\<close>

definition create_dir ::
  "filesystem \<Rightarrow> string \<Rightarrow> string \<Rightarrow> string \<Rightarrow> error + (string \<times> filesystem)" where
  "create_dir fs base_dir date_string media_dir =
     (case str_split CHR '':'' date_string of
        p0 # p1 # rest \<Rightarrow>
          (let new_dir = os_path_join base_dir [media_dir, p0, p0 @ ''-'' @ p1]
           in if \<not> os_path_exists fs new_dir
              then (case os_makedirs fs new_dir of
                      Inl e \<Rightarrow> Inl e
                    | Inr fs' \<Rightarrow> Inr (new_dir, fs'))
              else Inr (new_dir, fs))
      | _ \<Rightarrow> Inl IndexError)"

subsection \<open>\<open>copy_file\<close>\<close>

text \<open>
  Lines 90 to 92: the name tried at a given count (the variable \<open>append\<close> of the
  source).
\<close>

definition new_name_at :: "string \<Rightarrow> nat \<Rightarrow> string" where
  "new_name_at source_file_name append_count =
     (let name_parts = str_split CHR ''.'' source_file_name;
          name_parts = name_parts[0 := name_parts ! 0 @ ''-'' @ str append_count]
      in str_join ''.'' name_parts)"

text \<open>
  Facts about the names tried, for the termination of the loop: the name at a
  count is the first segment, the count and the rest, and different counts give
  different names.
\<close>

lemma str_split_nonempty: "str_split c s \<noteq> []"
  by (induction s) (auto simp: Let_def)

lemma hd_str_split: "hd (str_split c s) = takeWhile (\<lambda>x. x \<noteq> c) s"
  by (induction s) (auto simp: Let_def)

lemma str_join_tl_split:
  "str_join [c] (a # tl (str_split c s)) = a @ dropWhile (\<lambda>x. x \<noteq> c) s"
proof (induction s arbitrary: a)
  case Nil
  then show ?case by simp
next
  case (Cons x xs)
  show ?case
  proof (cases "x = c")
    case True
    obtain p ps where sp: "str_split c xs = p # ps"
      using str_split_nonempty[of c xs] by (cases "str_split c xs") auto
    have "str_join [c] (p # ps) = p @ dropWhile (\<lambda>x. x \<noteq> c) xs"
      using Cons.IH[of p] sp by simp
    moreover have "p = takeWhile (\<lambda>x. x \<noteq> c) xs" using hd_str_split[of c xs] sp by simp
    ultimately have "str_join [c] (str_split c xs) = xs" using sp by simp
    with True sp show ?thesis by (simp add: Let_def)
  next
    case False
    then show ?thesis using Cons.IH[of a] by (simp add: Let_def)
  qed
qed

lemma new_name_at_eq:
  "new_name_at name k =
     takeWhile (\<lambda>x. x \<noteq> CHR ''.'') name @ ''-'' @ str k @ dropWhile (\<lambda>x. x \<noteq> CHR ''.'') name"
proof -
  obtain p ps where sp: "str_split CHR ''.'' name = p # ps"
    using str_split_nonempty[of "CHR ''.''" name] by (cases "str_split CHR ''.'' name") auto
  have p: "p = takeWhile (\<lambda>x. x \<noteq> CHR ''.'') name"
    using hd_str_split[of "CHR ''.''" name] sp by simp
  have "new_name_at name k = str_join ''.'' ((p @ ''-'' @ str k) # ps)"
    by (simp add: new_name_at_def sp)
  also have "\<dots> = (p @ ''-'' @ str k) @ dropWhile (\<lambda>x. x \<noteq> CHR ''.'') name"
    using str_join_tl_split[of "CHR ''.''" "p @ ''-'' @ str k" name] sp by simp
  finally show ?thesis using p by simp
qed

text \<open>The value of a decimal digit, to read \<open>str n\<close> back.\<close>

definition digit_val :: "char \<Rightarrow> nat" where
  "digit_val c = length (takeWhile (\<lambda>x. x \<noteq> c) ''0123456789'')"

lemma digit_val_digit_char: "d < 10 \<Longrightarrow> digit_val (digit_char d) = d"
proof -
  assume "d < 10"
  then have "d = 0 \<or> d = 1 \<or> d = 2 \<or> d = 3 \<or> d = 4 \<or> d = 5 \<or> d = 6 \<or> d = 7 \<or>
             d = 8 \<or> d = 9" by arith
  then show ?thesis by (elim disjE) (simp_all add: digit_char_def digit_val_def)
qed

lemma str_value: "foldl (\<lambda>a c. 10 * a + digit_val c) 0 (str n) = n"
proof (induction n rule: str.induct)
  case (1 n)
  show ?case
  proof (cases "n < 10")
    case True
    then show ?thesis by (subst str.simps) (simp add: digit_val_digit_char)
  next
    case False
    then show ?thesis using 1
      by (subst str.simps) (simp add: digit_val_digit_char)
  qed
qed

lemma str_inj: "str a = str b \<Longrightarrow> a = b"
  by (metis str_value)

lemma str_nonempty: "str n \<noteq> []"
  by (subst str.simps) simp


lemma join2_new_name_inj:
  "join2 d (new_name_at name j) = join2 d (new_name_at name k) \<Longrightarrow> j = k"
proof -
  let ?b = "takeWhile (\<lambda>x. x \<noteq> CHR ''.'') name @ ''-''"
  let ?r = "dropWhile (\<lambda>x. x \<noteq> CHR ''.'') name"
  assume a: "join2 d (new_name_at name j) = join2 d (new_name_at name k)"
  have n: "\<And>i. new_name_at name i = ?b @ str i @ ?r" by (simp add: new_name_at_eq)
  have h: "\<And>i. hd (new_name_at name i) = hd ?b" "\<And>i. new_name_at name i \<noteq> []"
    by (simp_all add: n hd_append)
  have "\<exists>pre. \<forall>i. join2 d (new_name_at name i) = pre @ new_name_at name i"
  proof (cases "hd ?b = CHR ''/''")
    case True
    then have "\<forall>i. join2 d (new_name_at name i) = [] @ new_name_at name i"
      using h by (simp add: join2_def)
    then show ?thesis by blast
  next
    case False
    show ?thesis
    proof (cases "d = [] \<or> last d = CHR ''/''")
      case True
      with False have "\<forall>i. join2 d (new_name_at name i) = d @ new_name_at name i"
        using h by (simp add: join2_def)
      then show ?thesis by blast
    next
      case f2: False
      with False have "\<forall>i. join2 d (new_name_at name i) = (d @ ''/'') @ new_name_at name i"
        using h by (simp add: join2_def)
      then show ?thesis by blast
    qed
  qed
  then obtain pre where "\<And>i. join2 d (new_name_at name i) = pre @ new_name_at name i" by blast
  with a have "new_name_at name j = new_name_at name k" by simp
  then have "str j = str k" by (simp add: n)
  then show ?thesis by (rule str_inj)
qed

text \<open>
  The \<open>while\<close> loop of lines 88 to 93, on its three variables. It ends because the
  names tried are pairwise different and the file system is finite.
\<close>

function copy_loop ::
  "filesystem \<Rightarrow> string \<Rightarrow> string \<Rightarrow> nat \<Rightarrow> string \<Rightarrow> string option
     \<Rightarrow> nat \<times> string \<times> string option" where
  "copy_loop fs dest_dir source_file_name append_count dest_full_path new_name =
     (if os_path_exists fs dest_full_path
      then copy_loop fs dest_dir source_file_name (append_count + 1)
             (os_path_join dest_dir [new_name_at source_file_name (append_count + 1)])
             (Some (new_name_at source_file_name (append_count + 1)))
      else (append_count, dest_full_path, new_name))"
  by pat_completeness auto
termination
proof (relation "measure (\<lambda>(fs, d, name, a, p, nn).
          2 * card {k. a < k \<and> os_path_join d [new_name_at name k] \<in> fmdom' fs}
          + (if p \<in> fmdom' fs then 1 else 0))")
  show "wf (measure (\<lambda>(fs, d, name, a, p, nn).
          2 * card {k. a < k \<and> os_path_join d [new_name_at name k] \<in> fmdom' fs}
          + (if p \<in> fmdom' fs then 1 else 0)))" by simp
next
  fix fs :: filesystem and dest_dir source_file_name :: string and append_count :: nat
    and dest_full_path :: string and new_name :: "string option"
  assume ex: "os_path_exists fs dest_full_path"
  let ?c = "\<lambda>k. os_path_join dest_dir [new_name_at source_file_name k]"
  let ?S = "\<lambda>a. {k. a < k \<and> ?c k \<in> fmdom' fs}"
  have inj: "inj ?c"
    by (rule injI) (simp add: os_path_join_def, erule join2_new_name_inj)
  have fin: "finite (?S append_count)"
  proof (rule finite_subset)
    show "?S append_count \<subseteq> ?c -` fmdom' fs" by auto
    show "finite (?c -` fmdom' fs)" by (rule finite_vimageI) (simp_all add: inj)
  qed
  have p: "dest_full_path \<in> fmdom' fs"
    using ex by (auto simp: os_path_exists_def fmlookup_dom'_iff)
  have "2 * card (?S (append_count + 1)) + (if ?c (append_count + 1) \<in> fmdom' fs then 1 else 0)
          < 2 * card (?S append_count) + 1"
  proof (cases "?c (append_count + 1) \<in> fmdom' fs")
    case True
    have "?S append_count = insert (append_count + 1) (?S (append_count + 1))"
      using True by auto
    moreover have "finite (?S (append_count + 1))"
      by (rule finite_subset[OF _ fin]) auto
    ultimately have "card (?S append_count) = Suc (card (?S (append_count + 1)))"
      by simp
    with True show ?thesis by simp
  next
    case False
    have "?S append_count = ?S (append_count + 1)"
    proof (rule set_eqI)
      fix k
      show "k \<in> ?S append_count \<longleftrightarrow> k \<in> ?S (append_count + 1)"
        using False by (cases "k = append_count + 1") auto
    qed
    with False show ?thesis by simp
  qed
  with p show "((fs, dest_dir, source_file_name, append_count + 1, ?c (append_count + 1),
                 Some (new_name_at source_file_name (append_count + 1))),
                (fs, dest_dir, source_file_name, append_count, dest_full_path, new_name))
               \<in> measure (\<lambda>(fs, d, name, a, p, nn).
          2 * card {k. a < k \<and> os_path_join d [new_name_at name k] \<in> fmdom' fs}
          + (if p \<in> fmdom' fs then 1 else 0))"
    by simp
qed

declare copy_loop.simps [simp del]

definition copy_file ::
  "world \<Rightarrow> filesystem \<Rightarrow> string \<Rightarrow> string \<Rightarrow> string
     \<Rightarrow> error + (string option \<times> filesystem)" where
  "copy_file w fs source_dir source_file_name dest_dir =
     (let source_full_path = os_path_join source_dir [source_file_name];
          dest_full_path = os_path_join dest_dir [source_file_name];
          (append_count, dest_full_path, new_name) =
             copy_loop fs dest_dir source_file_name 0 dest_full_path None
      in case shutil_copy2 w fs source_full_path dest_full_path of
           Inl e \<Rightarrow> Inl e
         | Inr fs' \<Rightarrow> Inr (if append_count > 0 then new_name else None, fs'))"

text \<open>
  The path the loop tests at a given count: the original name first, then the
  names with the counts 1, 2, 3, ...
\<close>

definition tried :: "string \<Rightarrow> string \<Rightarrow> nat \<Rightarrow> string" where
  "tried dest_dir name k = os_path_join dest_dir [if k = 0 then name else new_name_at name k]"

subsection \<open>The loop of \<open>main\<close>\<close>

text \<open>
  The counters start at zero and are only incremented. \<open>log_lines\<close> holds the
  messages passed to \<open>log\<close> (here \<open>log_py\<close>), in order; \<open>disk\<close> is the file system.
\<close>

record run_state =
  total_files :: nat
  ignored_files :: nat
  total_exif :: nat
  total_photos :: nat
  total_videos :: nat
  file_exts :: "(string \<times> nat) list"
  log_lines :: "string list"
  disk :: filesystem

definition photo_exts :: "string list" where
  "photo_exts = [''.jpg'', ''.png'', ''.jpeg'', ''.tiff'', ''.tif'', ''.bmp'', ''.gif'', ''.crw'']"

definition video_exts :: "string list" where
  "video_exts = [''.mov'', ''.mp4'', ''.m4v'', ''.mpg'', ''.mpeg'', ''.ogv'', ''.flv'', ''.avi'',
                 ''.wmv'', ''.webm'']"

definition ignore_files :: "string list" where
  "ignore_files = [''Thumbs.db'', ''.DS_Store'', ''desktop.ini'']"

definition log_py :: "string \<Rightarrow> run_state \<Rightarrow> run_state" where
  "log_py message st = st\<lparr>log_lines := log_lines st @ [message]\<rparr>"

definition initial_state :: "filesystem \<Rightarrow> run_state" where
  "initial_state fs =
     \<lparr>total_files = 0, ignored_files = 0, total_exif = 0, total_photos = 0,
      total_videos = 0, file_exts = [], log_lines = [], disk = fs\<rparr>"

text \<open>Lines 138 to 141: the histogram of lower-cased extensions.\<close>

definition count_ext :: "string \<Rightarrow> (string \<times> nat) list \<Rightarrow> (string \<times> nat) list" where
  "count_ext file_ext exts =
     (case map_of exts file_ext of
        Some c \<Rightarrow> AList.update file_ext (c + 1) exts
      | None \<Rightarrow> AList.update file_ext 1 exts)"

text \<open>Lines 146 to 153: the category and the counter it increments.\<close>

definition classify :: "string \<Rightarrow> run_state \<Rightarrow> string \<times> run_state" where
  "classify file_ext st =
     (if file_ext \<in> set photo_exts
      then (''Pictures'', st\<lparr>total_photos := total_photos st + 1\<rparr>)
      else if file_ext \<in> set video_exts
      then (''Videos'', st\<lparr>total_videos := total_videos st + 1\<rparr>)
      else (''Other'', st))"

text \<open>
  Lines 134 to 145: what is done for every file before the ignore list is
  looked at. The result carries the date and the lower-cased extension on.
\<close>

definition account_file ::
  "world \<Rightarrow> run_state \<Rightarrow> string \<Rightarrow> string \<Rightarrow> error + (string \<times> string \<times> run_state)" where
  "account_file w st root_dir name =
     (let st = st\<lparr>total_files := total_files st + 1\<rparr>;
          full_path = os_path_join root_dir [name];
          (file_name, file_ext) = os_path_splitext full_path;
          file_ext = lower file_ext;
          st = st\<lparr>file_exts := count_ext file_ext (file_exts st)\<rparr>
      in case get_best_date w (disk st) full_path of
           Inl e \<Rightarrow> Inl e
         | Inr (best_date, had_exif) \<Rightarrow>
             (let st = (if had_exif then st\<lparr>total_exif := total_exif st + 1\<rparr> else st);
                  st = log_py ((if had_exif then ''(Exif) '' else []) @ best_date @ '' '' @ full_path) st
              in Inr (best_date, file_ext, st)))"

text \<open>The body of the inner \<open>for\<close> loop, lines 134 to 160.\<close>

definition process_file ::
  "world \<Rightarrow> string \<Rightarrow> run_state \<Rightarrow> string \<Rightarrow> string \<Rightarrow> error + run_state" where
  "process_file w dest_dir st root_dir name =
     (case account_file w st root_dir name of
        Inl e \<Rightarrow> Inl e
      | Inr (best_date, file_ext, st) \<Rightarrow>
          (let (media_dir, st) = classify file_ext st
           in if name \<notin> set ignore_files
              then (case create_dir (disk st) dest_dir best_date media_dir of
                      Inl e \<Rightarrow> Inl e
                    | Inr (created_dir, fs1) \<Rightarrow>
                        (case copy_file w fs1 root_dir name created_dir of
                           Inl e \<Rightarrow> Inl e
                         | Inr (new_name, fs2) \<Rightarrow>
                             (let st = st\<lparr>disk := fs2\<rparr>
                              in case new_name of
                                   None \<Rightarrow> Inr st
                                 | Some n \<Rightarrow>
                                     Inr (if n \<noteq> []
                                          then log_py (''Renamed '' @ name @ '' to '' @ n) st
                                          else st))))
              else Inr (st\<lparr>ignored_files := ignored_files st + 1\<rparr>)))"

text \<open>
  The two nested loops over what \<open>os.walk\<close> yields: a list of directories, each
  with the names of its files. An exception ends the run.
\<close>

fun process_files :: "world \<Rightarrow> string \<Rightarrow> run_state \<Rightarrow> string \<Rightarrow> string list \<Rightarrow> error + run_state" where
  "process_files w dest_dir st root_dir [] = Inr st"
| "process_files w dest_dir st root_dir (name # files) =
     (case process_file w dest_dir st root_dir name of
        Inl e \<Rightarrow> Inl e
      | Inr st' \<Rightarrow> process_files w dest_dir st' root_dir files)"

fun main_loop ::
  "world \<Rightarrow> string \<Rightarrow> run_state \<Rightarrow> (string \<times> string list \<times> string list) list \<Rightarrow> error + run_state" where
  "main_loop w dest_dir st [] = Inr st"
| "main_loop w dest_dir st ((root_dir, dirs, files) # walk) =
     (case process_files w dest_dir st root_dir files of
        Inl e \<Rightarrow> Inl e
      | Inr st' \<Rightarrow> main_loop w dest_dir st' walk)"

subsection \<open>The state of the counters\<close>

text \<open>
  The state after the steps every file goes through (lines 134 to 153), written
  as one update of the state before.
\<close>

definition counted :: "run_state \<Rightarrow> string \<Rightarrow> string \<Rightarrow> bool \<Rightarrow> run_state" where
  "counted st full_path best_date had_exif =
     st\<lparr>total_files := total_files st + 1,
        file_exts := count_ext (lower (snd (os_path_splitext full_path))) (file_exts st),
        total_exif := total_exif st + (if had_exif then 1 else 0),
        log_lines := log_lines st @
           [(if had_exif then ''(Exif) '' else []) @ best_date @ '' '' @ full_path],
        total_photos := total_photos st +
           (if lower (snd (os_path_splitext full_path)) \<in> set photo_exts then 1 else 0),
        total_videos := total_videos st +
           (if lower (snd (os_path_splitext full_path)) \<notin> set photo_exts \<and>
               lower (snd (os_path_splitext full_path)) \<in> set video_exts
            then 1 else 0)\<rparr>"

text \<open>
  The histogram sums to the total, and the photos and videos together do not
  exceed it.
\<close>

definition counters_invariant :: "run_state \<Rightarrow> bool" where
  "counters_invariant st =
     (sum_list (map snd (file_exts st)) = total_files st \<and>
      total_photos st + total_videos st \<le> total_files st)"

subsection \<open>The form of a date text\<close>

text \<open>
  The form the specification gives for a date text, \<open>YYYY:MM:DD HH:MM:SS\<close>: in the
  pattern, \<open>d\<close> stands for a decimal digit and every other character for itself.
\<close>

definition is_digit :: "char \<Rightarrow> bool" where
  "is_digit c = (c \<in> set ''0123456789'')"

fun matches_form :: "string \<Rightarrow> string \<Rightarrow> bool" where
  "matches_form [] [] = True"
| "matches_form (p # ps) (c # cs) =
     ((if p = CHR ''d'' then is_digit c else c = p) \<and> matches_form ps cs)"
| "matches_form _ _ = False"

definition spec_datetime_form :: "string \<Rightarrow> bool" where
  "spec_datetime_form s = matches_form ''dddd:dd:dd dd:dd:dd'' s"

subsection \<open>Sample data\<close>

text \<open>A small disk and a fixed clock, for concrete runs.\<close>

definition sample_world :: world where
  "sample_world =
     \<lparr>localtime = (\<lambda>t. Inr \<lparr>tm_year = 2017, tm_mon = 6, tm_mday = 19, tm_hour = 13,
                          tm_min = 26, tm_sec = 16\<rparr>),
      now = 9\<rparr>"

definition sample_file :: file_info where
  "sample_file = \<lparr>ctime = 5, mtime = 3, exif = Inl ImageError\<rparr>"

definition sample_disk :: filesystem where
  "sample_disk =
     fmupd ''s/my.photo.jpg'' (File sample_file)
       (fmupd ''s/name'' (File sample_file)
          (fmupd ''d/my.photo.jpg'' (File sample_file)
             (fmupd ''d/name'' (File sample_file)
                (fmupd ''d/name-1'' (File sample_file)
                   (fmupd ''d'' Dir (fmupd ''s'' Dir fmempty))))))"

section \<open>The date resolver\<close>

lemma strftime_best:
  "strftime ''%Y:%m:%d %I:%M:%S'' tm =
     str_int (tm_year tm) @ '':'' @ pad2 (tm_mon tm) @ '':'' @ pad2 (tm_mday tm) @ '' '' @
     pad2 (if tm_hour tm mod 12 = 0 then 12 else tm_hour tm mod 12) @ '':'' @
     pad2 (tm_min tm) @ '':'' @ pad2 (tm_sec tm)"
  by (simp add: directive_def)

lemma no_tag_lookup:
  assumes "readable_tag f = None"
  shows "(case (case exif f of Inl e \<Rightarrow> None | Inr i \<Rightarrow> i) of
            None \<Rightarrow> None
          | Some d \<Rightarrow> if d \<noteq> [] then map_of d 36867 else None) = None"
  using assms by (auto simp: readable_tag_def split: sum.splits option.splits)

text \<open>
  C1. A file whose metadata can be read and holds tag 36867 (DateTimeOriginal):
  \<open>get_best_date\<close> returns the value of that tag, and the flag is true.
\<close>

theorem get_best_date_exif:
  assumes "fmlookup fs full_path = Some (File f)" and "readable_tag f = Some v"
  shows "get_best_date w fs full_path = Inr (v, True)"
proof -
  from assms(2) obtain d where d: "exif f = Inr (Some d)" "map_of d 36867 = Some v"
    by (auto simp: readable_tag_def split: sum.splits option.splits)
  from d(2) have "d \<noteq> []" by auto
  with assms(1) d show ?thesis
    by (simp add: get_best_date_def Image_open_getexif_def)
qed

theorem get_best_date_exif_witness:
  "get_best_date \<lparr>localtime = (\<lambda>t. Inr \<lparr>tm_year = 2017, tm_mon = 6, tm_mday = 19, tm_hour = 13,
                                      tm_min = 26, tm_sec = 16\<rparr>), now = 0\<rparr>
     (fmupd ''a.jpg''
        (File \<lparr>ctime = 5, mtime = 3,
               exif = Inr (Some [(271, ''Canon''), (36867, ''2020:01:15 10:00:00'')])\<rparr>)
        fmempty)
     ''a.jpg''
   = Inr (''2020:01:15 10:00:00'', True)"
  by (rule get_best_date_exif [where f = "\<lparr>ctime = 5, mtime = 3,
               exif = Inr (Some [(271, ''Canon''), (36867, ''2020:01:15 10:00:00'')])\<rparr>"])
     (simp_all add: readable_tag_def)

text \<open>
  C2, as amended. A file without a readable tag 36867, whatever the reason (the
  metadata read raised, returned nothing, or returned a dictionary without the
  tag): the failure of the read is never raised. \<open>get_best_date\<close> takes the
  earlier of the creation and the modification time; when \<open>time.localtime\<close>
  converts it, the result is that local time formatted, with the flag false; when
  \<open>time.localtime\<close> raises on it, \<open>get_best_date\<close> raises that error.
\<close>

theorem get_best_date_fallback:
  assumes "fmlookup fs full_path = Some (File f)" and "readable_tag f = None"
  shows "get_best_date w fs full_path =
           (case localtime w (min (ctime f) (mtime f)) of
              Inl e \<Rightarrow> Inl e
            | Inr tm \<Rightarrow> Inr (strftime ''%Y:%m:%d %I:%M:%S'' tm, False))"
proof -
  have m: "(if mtime f < ctime f then mtime f else ctime f) = min (ctime f) (mtime f)"
    by (simp add: min_def)
  show ?thesis
    unfolding get_best_date_def Let_def Image_open_getexif_def os_path_getctime_def
      os_path_getmtime_def
    using assms(1) no_tag_lookup[OF assms(2)] m by simp
qed

theorem get_best_date_fallback_witness:
  "get_best_date
     \<lparr>localtime = (\<lambda>t. Inr \<lparr>tm_year = 2017, tm_mon = 6, tm_mday = 19,
                         tm_hour = (if t = 3 then 9 else 10), tm_min = 26, tm_sec = 16\<rparr>),
      now = 0\<rparr>
     (fmupd ''a.mp4'' (File \<lparr>ctime = 5, mtime = 3, exif = Inl ImageError\<rparr>) fmempty)
     ''a.mp4''
   = Inr (''2017:06:19 09:26:16'', False)"
  using get_best_date_fallback [where f = "\<lparr>ctime = 5, mtime = 3, exif = Inl ImageError\<rparr>"
      and fs = "fmupd ''a.mp4'' (File \<lparr>ctime = 5, mtime = 3, exif = Inl ImageError\<rparr>) fmempty"
      and full_path = "''a.mp4''"
      and w = "\<lparr>localtime = (\<lambda>t. Inr \<lparr>tm_year = 2017, tm_mon = 6, tm_mday = 19,
                         tm_hour = (if t = 3 then 9 else 10), tm_min = 26, tm_sec = 16\<rparr>),
      now = 0\<rparr>"]
  by (simp add: readable_tag_def directive_def pad2_def str_int_def str.simps digit_char_def)

text \<open>
  The claim as it is written fails where \<open>time.localtime\<close> raises: a file that
  is no image, whose modification time lies \<open>10^17\<close> seconds before the epoch, in
  a world whose \<open>time.localtime\<close> cannot convert such a time stamp. The call of
  line 62 stands outside the \<open>try\<close>, and its error is raised.
\<close>

theorem get_best_date_fallback_counterexample:
  "readable_tag \<lparr>ctime = 1500000000, mtime = - 100000000000000000, exif = Inl ImageError\<rparr> = None \<and>
   get_best_date
     \<lparr>localtime = (\<lambda>t. if t < - 1000000000000000 then Inl OSError
                         else Inr \<lparr>tm_year = 2017, tm_mon = 6, tm_mday = 19, tm_hour = 13,
                                   tm_min = 26, tm_sec = 16\<rparr>),
      now = 0\<rparr>
     (fmupd ''a.mp4''
        (File \<lparr>ctime = 1500000000, mtime = - 100000000000000000, exif = Inl ImageError\<rparr>)
        fmempty)
     ''a.mp4''
   = Inl OSError"
  by (simp add: readable_tag_def get_best_date_def Image_open_getexif_def os_path_getctime_def
      os_path_getmtime_def)

section \<open>The copier\<close>

text \<open>
  What the loop returns: the first count, from the one it starts at, whose path
  is free. Every count passed on the way names an existing path.
\<close>

lemma copy_loop_result:
  assumes "copy_loop fs d name a p nn = (k, q, r)"
  shows "a \<le> k \<and> \<not> os_path_exists fs q \<and>
         (k = a \<longrightarrow> q = p \<and> r = nn) \<and>
         (a < k \<longrightarrow> os_path_exists fs p \<and> q = os_path_join d [new_name_at name k] \<and>
                     r = Some (new_name_at name k)) \<and>
         (\<forall>j. a < j \<and> j < k \<longrightarrow> os_path_exists fs (os_path_join d [new_name_at name j]))"
  using assms
proof (induction fs d name a p nn rule: copy_loop.induct)
  case (1 fs d name a p nn)
  show ?case
  proof (cases "os_path_exists fs p")
    case False
    with "1.prems" show ?thesis by (auto simp: copy_loop.simps)
  next
    case True
    with "1.prems" have rec: "copy_loop fs d name (a + 1) (os_path_join d [new_name_at name (a + 1)])
        (Some (new_name_at name (a + 1))) = (k, q, r)"
      by (simp add: copy_loop.simps)
    note ih = "1.IH"[OF True rec]
    have le: "a + 1 \<le> k" using ih by simp
    have ex: "\<forall>j. a < j \<and> j < k \<longrightarrow> os_path_exists fs (os_path_join d [new_name_at name j])"
    proof (intro allI impI)
      fix j assume j: "a < j \<and> j < k"
      show "os_path_exists fs (os_path_join d [new_name_at name j])"
      proof (cases "j = a + 1")
        case True
        with j have "a + 1 < k" by simp
        with ih True show ?thesis by simp
      next
        case False
        with j have "a + 1 < j \<and> j < k" by simp
        with ih show ?thesis by blast
      qed
    qed
    have qr: "q = os_path_join d [new_name_at name k] \<and> r = Some (new_name_at name k)"
    proof (cases "k = a + 1")
      case True
      with ih show ?thesis by simp
    next
      case False
      with le have "a + 1 < k" by simp
      with ih show ?thesis by simp
    qed
    from ih le ex qr True show ?thesis by simp
  qed
qed

lemma copy_file_unfold:
  "\<exists>k. (\<forall>j<k. os_path_exists fs (tried dest_dir name j)) \<and>
       \<not> os_path_exists fs (tried dest_dir name k) \<and>
       copy_file w fs source_dir name dest_dir =
         (case shutil_copy2 w fs (os_path_join source_dir [name]) (tried dest_dir name k) of
            Inl e \<Rightarrow> Inl e
          | Inr fs' \<Rightarrow> Inr (if k = 0 then None else Some (new_name_at name k), fs'))"
proof -
  obtain k q r where l: "copy_loop fs dest_dir name 0 (os_path_join dest_dir [name]) None = (k, q, r)"
    by (cases "copy_loop fs dest_dir name 0 (os_path_join dest_dir [name]) None") auto
  note c = copy_loop_result[OF l]
  have free: "\<not> os_path_exists fs q" using c by blast
  have ex: "\<forall>j<k. os_path_exists fs (tried dest_dir name j)"
  proof (intro allI impI)
    fix j assume j: "j < k"
    show "os_path_exists fs (tried dest_dir name j)"
    proof (cases "j = 0")
      case True
      from j c have "os_path_exists fs (os_path_join dest_dir [name])" by blast
      with True show ?thesis by (simp add: tried_def)
    next
      case False
      with j c have "os_path_exists fs (os_path_join dest_dir [new_name_at name j])" by blast
      with False show ?thesis by (simp add: tried_def)
    qed
  qed
  have eq: "copy_file w fs source_dir name dest_dir =
         (case shutil_copy2 w fs (os_path_join source_dir [name]) (tried dest_dir name k) of
            Inl e \<Rightarrow> Inl e
          | Inr fs' \<Rightarrow> Inr (if k = 0 then None else Some (new_name_at name k), fs'))"
  proof (cases "k = 0")
    case True
    from c True have "q = os_path_join dest_dir [name]" "r = None" by blast+
    with l True have l0: "copy_loop fs dest_dir name 0 (os_path_join dest_dir [name]) None =
                   (0, os_path_join dest_dir [name], None)" by simp
    show ?thesis unfolding copy_file_def Let_def l0 tried_def using True by simp
  next
    case False
    then have "0 < k" by simp
    with c have "q = os_path_join dest_dir [new_name_at name k]" "r = Some (new_name_at name k)"
      by blast+
    with l have lk: "copy_loop fs dest_dir name 0 (os_path_join dest_dir [name]) None =
                   (k, os_path_join dest_dir [new_name_at name k], Some (new_name_at name k))" by simp
    show ?thesis unfolding copy_file_def Let_def lk tried_def using False by simp
  qed
  have q: "q = tried dest_dir name k"
  proof (cases "k = 0")
    case True
    with c have "q = os_path_join dest_dir [name]" by blast
    with True show ?thesis by (simp add: tried_def)
  next
    case False
    then have "0 < k" by simp
    with c have "q = os_path_join dest_dir [new_name_at name k]" by blast
    with False show ?thesis by (simp add: tried_def)
  qed
  from ex free eq show ?thesis unfolding q by blast
qed


lemma shutil_copy2_fresh:
  assumes "\<not> os_path_exists fs dst"
  shows "shutil_copy2 w fs src dst =
           (case fmlookup fs src of
              None \<Rightarrow> Inl FileNotFoundError
            | Some Dir \<Rightarrow> Inl IsADirectoryError
            | Some (File f) \<Rightarrow>
                if list_ex (\<lambda>ch. ch \<noteq> CHR ''/'') (os_path_dirname dst) \<and>
                   fmlookup fs (os_path_dirname dst) \<noteq> Some Dir
                then Inl FileNotFoundError
                else Inr (fmupd dst (File (f\<lparr>ctime := now w\<rparr>)) fs))"
proof -
  from assms have n: "fmlookup fs dst = None" by (simp add: os_path_exists_def)
  show ?thesis
    by (cases "fmlookup fs src") (simp_all add: shutil_copy2_def n Let_def split: node.splits)
qed

lemma shutil_copy2_fresh_Inr:
  assumes "\<not> os_path_exists fs dst" and "shutil_copy2 w fs src dst = Inr fs'"
  shows "\<exists>f. fs' = fmupd dst (File f) fs"
  using assms(2) unfolding shutil_copy2_fresh[OF assms(1)]
  by (auto split: option.splits node.splits if_splits)


text \<open>
  C3. \<open>copy_file\<close> tests the original name, then the names with the counts 1, 2,
  3, ... in this order, and stops at the first path that does not exist. Every
  path tested before exists. A successful copy writes that free path only, so
  no existing path is written; and the copy succeeds there whenever the source
  is a regular file and the directory of the free path exists.
\<close>

theorem copy_file_no_overwrite:
  "\<exists>k. (\<forall>j<k. os_path_exists fs (tried dest_dir name j)) \<and>
       \<not> os_path_exists fs (tried dest_dir name k) \<and>
       (\<forall>r fs'. copy_file w fs source_dir name dest_dir = Inr (r, fs') \<longrightarrow>
          (\<exists>f. fs' = fmupd (tried dest_dir name k) (File f) fs) \<and>
          (\<forall>q. os_path_exists fs q \<longrightarrow> fmlookup fs' q = fmlookup fs q)) \<and>
       (\<forall>f. fmlookup fs (os_path_join source_dir [name]) = Some (File f) \<and>
            fmlookup fs (os_path_dirname (tried dest_dir name k)) = Some Dir \<longrightarrow>
          copy_file w fs source_dir name dest_dir =
            Inr (if k = 0 then None else Some (new_name_at name k),
                 fmupd (tried dest_dir name k) (File (f\<lparr>ctime := now w\<rparr>)) fs))"
proof -
  obtain k where ex: "\<forall>j<k. os_path_exists fs (tried dest_dir name j)"
    and free: "\<not> os_path_exists fs (tried dest_dir name k)"
    and eq: "copy_file w fs source_dir name dest_dir =
         (case shutil_copy2 w fs (os_path_join source_dir [name]) (tried dest_dir name k) of
            Inl e \<Rightarrow> Inl e
          | Inr fs' \<Rightarrow> Inr (if k = 0 then None else Some (new_name_at name k), fs'))"
    using copy_file_unfold[of fs dest_dir name w source_dir] by blast
  have a: "\<forall>r fs'. copy_file w fs source_dir name dest_dir = Inr (r, fs') \<longrightarrow>
          (\<exists>f. fs' = fmupd (tried dest_dir name k) (File f) fs) \<and>
          (\<forall>q. os_path_exists fs q \<longrightarrow> fmlookup fs' q = fmlookup fs q)"
  proof (intro allI impI)
    fix r fs'
    assume "copy_file w fs source_dir name dest_dir = Inr (r, fs')"
    with eq have "shutil_copy2 w fs (os_path_join source_dir [name]) (tried dest_dir name k) = Inr fs'"
      by (simp split: sum.splits)
    from shutil_copy2_fresh_Inr[OF free this]
    obtain f where f: "fs' = fmupd (tried dest_dir name k) (File f) fs" by blast
    have "\<forall>q. os_path_exists fs q \<longrightarrow> fmlookup fs' q = fmlookup fs q"
      using free by (auto simp: f)
    with f show "(\<exists>f. fs' = fmupd (tried dest_dir name k) (File f) fs) \<and>
          (\<forall>q. os_path_exists fs q \<longrightarrow> fmlookup fs' q = fmlookup fs q)" by blast
  qed
  have b: "\<forall>f. fmlookup fs (os_path_join source_dir [name]) = Some (File f) \<and>
            fmlookup fs (os_path_dirname (tried dest_dir name k)) = Some Dir \<longrightarrow>
          copy_file w fs source_dir name dest_dir =
            Inr (if k = 0 then None else Some (new_name_at name k),
                 fmupd (tried dest_dir name k) (File (f\<lparr>ctime := now w\<rparr>)) fs)"
    unfolding eq shutil_copy2_fresh[OF free] by simp
  from ex free a b show ?thesis by blast
qed

theorem copy_file_no_overwrite_witness:
  "copy_file \<lparr>localtime = (\<lambda>t. Inr \<lparr>tm_year = 2017, tm_mon = 6, tm_mday = 19, tm_hour = 13,
                                  tm_min = 26, tm_sec = 16\<rparr>), now = 9\<rparr>
     (fmupd ''s/a.jpg'' (File \<lparr>ctime = 5, mtime = 3, exif = Inl ImageError\<rparr>)
        (fmupd ''d/a-1.jpg'' (File \<lparr>ctime = 1, mtime = 1, exif = Inl ImageError\<rparr>)
           (fmupd ''d/a.jpg'' (File \<lparr>ctime = 2, mtime = 2, exif = Inl ImageError\<rparr>)
              (fmupd ''d'' Dir fmempty))))
     ''s'' ''a.jpg'' ''d''
   = Inr (Some ''a-2.jpg'',
          fmupd ''d/a-2.jpg'' (File \<lparr>ctime = 9, mtime = 3, exif = Inl ImageError\<rparr>)
            (fmupd ''s/a.jpg'' (File \<lparr>ctime = 5, mtime = 3, exif = Inl ImageError\<rparr>)
               (fmupd ''d/a-1.jpg'' (File \<lparr>ctime = 1, mtime = 1, exif = Inl ImageError\<rparr>)
                  (fmupd ''d/a.jpg'' (File \<lparr>ctime = 2, mtime = 2, exif = Inl ImageError\<rparr>)
                     (fmupd ''d'' Dir fmempty)))))"
proof -
  let ?w = "\<lparr>localtime = (\<lambda>t. Inr \<lparr>tm_year = 2017, tm_mon = 6, tm_mday = 19, tm_hour = 13,
                                  tm_min = 26, tm_sec = 16\<rparr>), now = 9\<rparr>"
  let ?f = "\<lparr>ctime = 5, mtime = 3, exif = Inl ImageError\<rparr>"
  let ?fs = "fmupd ''s/a.jpg'' (File ?f)
        (fmupd ''d/a-1.jpg'' (File \<lparr>ctime = 1, mtime = 1, exif = Inl ImageError\<rparr>)
           (fmupd ''d/a.jpg'' (File \<lparr>ctime = 2, mtime = 2, exif = Inl ImageError\<rparr>)
              (fmupd ''d'' Dir fmempty)))"
  have t0: "tried ''d'' ''a.jpg'' 0 = ''d/a.jpg''"
    by (simp add: tried_def os_path_join_def join2_def)
  have t1: "tried ''d'' ''a.jpg'' 1 = ''d/a-1.jpg''"
    by (simp add: tried_def os_path_join_def join2_def new_name_at_def str.simps digit_char_def)
  have n2: "new_name_at ''a.jpg'' 2 = ''a-2.jpg''"
    by (simp add: new_name_at_def str.simps digit_char_def)
  have t2: "tried ''d'' ''a.jpg'' 2 = ''d/a-2.jpg''"
    by (simp add: tried_def os_path_join_def join2_def n2)
  have e0: "os_path_exists ?fs (tried ''d'' ''a.jpg'' 0)"
    and e1: "os_path_exists ?fs (tried ''d'' ''a.jpg'' 1)"
    and e2: "\<not> os_path_exists ?fs (tried ''d'' ''a.jpg'' 2)"
    unfolding t0 t1 t2 by (simp_all add: os_path_exists_def)
  from copy_file_no_overwrite[of ?fs "''d''" "''a.jpg''" ?w "''s''"]
  obtain k where ex: "\<forall>j<k. os_path_exists ?fs (tried ''d'' ''a.jpg'' j)"
    and free: "\<not> os_path_exists ?fs (tried ''d'' ''a.jpg'' k)"
    and ok: "\<forall>f. fmlookup ?fs (os_path_join ''s'' [''a.jpg'']) = Some (File f) \<and>
            fmlookup ?fs (os_path_dirname (tried ''d'' ''a.jpg'' k)) = Some Dir \<longrightarrow>
          copy_file ?w ?fs ''s'' ''a.jpg'' ''d'' =
            Inr (if k = 0 then None else Some (new_name_at ''a.jpg'' k),
                 fmupd (tried ''d'' ''a.jpg'' k) (File (f\<lparr>ctime := now ?w\<rparr>)) ?fs)"
    by blast
  have "\<not> 2 < k" using ex e2 by blast
  moreover have "k \<noteq> 0" using free e0 by metis
  moreover have "k \<noteq> 1" using free e1 by metis
  ultimately have k: "k = 2" by arith
  have src: "fmlookup ?fs (os_path_join ''s'' [''a.jpg'']) = Some (File ?f)"
    by (simp add: os_path_join_def join2_def)
  have par: "fmlookup ?fs (os_path_dirname (tried ''d'' ''a.jpg'' 2)) = Some Dir"
    by (simp add: t2 os_path_dirname_def rfind_def)
  from ok src par have "copy_file ?w ?fs ''s'' ''a.jpg'' ''d'' =
            Inr (if (2::nat) = 0 then None else Some (new_name_at ''a.jpg'' 2),
                 fmupd (tried ''d'' ''a.jpg'' 2) (File (?f\<lparr>ctime := now ?w\<rparr>)) ?fs)"
    unfolding k by blast
  then show ?thesis by (simp add: n2 t2)
qed

text \<open>The count the loop stops at is the least one whose path is free.\<close>

lemma copy_file_at:
  assumes "\<forall>j<k. os_path_exists fs (tried dest_dir name j)"
    and "\<not> os_path_exists fs (tried dest_dir name k)"
  shows "copy_file w fs source_dir name dest_dir =
         (case shutil_copy2 w fs (os_path_join source_dir [name]) (tried dest_dir name k) of
            Inl e \<Rightarrow> Inl e
          | Inr fs' \<Rightarrow> Inr (if k = 0 then None else Some (new_name_at name k), fs'))"
proof -
  obtain k' where ex: "\<forall>j<k'. os_path_exists fs (tried dest_dir name j)"
    and free: "\<not> os_path_exists fs (tried dest_dir name k')"
    and eq: "copy_file w fs source_dir name dest_dir =
         (case shutil_copy2 w fs (os_path_join source_dir [name]) (tried dest_dir name k') of
            Inl e \<Rightarrow> Inl e
          | Inr fs' \<Rightarrow> Inr (if k' = 0 then None else Some (new_name_at name k'), fs'))"
    using copy_file_unfold[of fs dest_dir name w source_dir] by blast
  have "\<not> k' < k" using assms(1) free by blast
  moreover have "\<not> k < k'" using ex assms(2) by blast
  ultimately have kk: "k' = k" by arith
  show ?thesis using eq unfolding kk .
qed

lemma copy_file_succeeds:
  assumes "\<forall>j<k. os_path_exists fs (tried dest_dir name j)"
    and "\<not> os_path_exists fs (tried dest_dir name k)"
    and "fmlookup fs (os_path_join source_dir [name]) = Some (File f)"
    and "fmlookup fs (os_path_dirname (tried dest_dir name k)) = Some Dir"
  shows "copy_file w fs source_dir name dest_dir =
           Inr (if k = 0 then None else Some (new_name_at name k),
                fmupd (tried dest_dir name k) (File (f\<lparr>ctime := now w\<rparr>)) fs)"
  unfolding copy_file_at[OF assms(1,2)] shutil_copy2_fresh[OF assms(2)]
  using assms(3,4) by simp

text \<open>The two cases of a copy that succeeds, in terms of the names alone.\<close>

lemma copy_file_free:
  assumes "fmlookup fs (os_path_join source_dir [name]) = Some (File f)"
    and "\<not> os_path_exists fs (os_path_join dest_dir [name])"
    and "fmlookup fs (os_path_dirname (os_path_join dest_dir [name])) = Some Dir"
  shows "copy_file w fs source_dir name dest_dir =
           Inr (None, fmupd (os_path_join dest_dir [name]) (File (f\<lparr>ctime := now w\<rparr>)) fs)"
proof -
  have t: "tried dest_dir name 0 = os_path_join dest_dir [name]" by (simp add: tried_def)
  from copy_file_succeeds[of 0 fs dest_dir name source_dir f w] assms
  show ?thesis by (simp add: t)
qed

lemma copy_file_taken:
  assumes "fmlookup fs (os_path_join source_dir [name]) = Some (File f)"
    and "os_path_exists fs (os_path_join dest_dir [name])"
    and "0 < k"
    and "\<forall>j. 0 < j \<and> j < k \<longrightarrow> os_path_exists fs (os_path_join dest_dir [new_name_at name j])"
    and "\<not> os_path_exists fs (os_path_join dest_dir [new_name_at name k])"
    and "fmlookup fs (os_path_dirname (os_path_join dest_dir [new_name_at name k])) = Some Dir"
  shows "copy_file w fs source_dir name dest_dir =
           Inr (Some (new_name_at name k),
                fmupd (os_path_join dest_dir [new_name_at name k])
                  (File (f\<lparr>ctime := now w\<rparr>)) fs)"
proof -
  have tk: "tried dest_dir name k = os_path_join dest_dir [new_name_at name k]"
    using assms(3) by (simp add: tried_def)
  have ex: "\<forall>j<k. os_path_exists fs (tried dest_dir name j)"
  proof (intro allI impI)
    fix j assume "j < k"
    then show "os_path_exists fs (tried dest_dir name j)"
      using assms(2,4) by (cases "j = 0") (simp_all add: tried_def)
  qed
  have free: "\<not> os_path_exists fs (tried dest_dir name k)" using assms(5) by (simp add: tk)
  have par: "fmlookup fs (os_path_dirname (tried dest_dir name k)) = Some Dir"
    using assms(6) by (simp add: tk)
  from copy_file_succeeds[OF ex free assms(1) par, of w] assms(3)
  show ?thesis by (simp add: tk)
qed


text \<open>
  C9. When the original name is free in the destination, \<open>copy_file\<close> copies the
  source file under the original name and returns \<open>None\<close>. When it is taken, and
  \<open>k\<close> is the first count from 1 whose name is free, \<open>copy_file\<close> copies the
  source file under the name of count \<open>k\<close> and returns that name. In both cases
  the copy succeeds as soon as the source is a regular file and the destination
  directory exists. Whenever \<open>copy_file\<close> returns, it returns \<open>None\<close> exactly when
  the original name was free.
\<close>

theorem copy_file_return:
  "(fmlookup fs (os_path_join source_dir [name]) = Some (File f) \<and>
    \<not> os_path_exists fs (os_path_join dest_dir [name]) \<and>
    fmlookup fs (os_path_dirname (os_path_join dest_dir [name])) = Some Dir \<longrightarrow>
      copy_file w fs source_dir name dest_dir =
        Inr (None, fmupd (os_path_join dest_dir [name]) (File (f\<lparr>ctime := now w\<rparr>)) fs)) \<and>
   (fmlookup fs (os_path_join source_dir [name]) = Some (File f) \<and>
    os_path_exists fs (os_path_join dest_dir [name]) \<and> 0 < k \<and>
    (\<forall>j. 0 < j \<and> j < k \<longrightarrow> os_path_exists fs (os_path_join dest_dir [new_name_at name j])) \<and>
    \<not> os_path_exists fs (os_path_join dest_dir [new_name_at name k]) \<and>
    fmlookup fs (os_path_dirname (os_path_join dest_dir [new_name_at name k])) = Some Dir \<longrightarrow>
      copy_file w fs source_dir name dest_dir =
        Inr (Some (new_name_at name k),
             fmupd (os_path_join dest_dir [new_name_at name k])
               (File (f\<lparr>ctime := now w\<rparr>)) fs)) \<and>
   (copy_file w fs source_dir name dest_dir = Inr (r, fs') \<longrightarrow>
      (r = None \<longleftrightarrow> \<not> os_path_exists fs (os_path_join dest_dir [name])) \<and>
      (\<forall>n. r = Some n \<longrightarrow> (\<exists>j. 0 < j \<and> n = new_name_at name j)))"
proof (intro conjI impI)
  assume "fmlookup fs (os_path_join source_dir [name]) = Some (File f) \<and>
    \<not> os_path_exists fs (os_path_join dest_dir [name]) \<and>
    fmlookup fs (os_path_dirname (os_path_join dest_dir [name])) = Some Dir"
  then show "copy_file w fs source_dir name dest_dir =
        Inr (None, fmupd (os_path_join dest_dir [name]) (File (f\<lparr>ctime := now w\<rparr>)) fs)"
    using copy_file_free[of fs source_dir name f dest_dir w] by blast
next
  assume "fmlookup fs (os_path_join source_dir [name]) = Some (File f) \<and>
    os_path_exists fs (os_path_join dest_dir [name]) \<and> 0 < k \<and>
    (\<forall>j. 0 < j \<and> j < k \<longrightarrow> os_path_exists fs (os_path_join dest_dir [new_name_at name j])) \<and>
    \<not> os_path_exists fs (os_path_join dest_dir [new_name_at name k]) \<and>
    fmlookup fs (os_path_dirname (os_path_join dest_dir [new_name_at name k])) = Some Dir"
  then show "copy_file w fs source_dir name dest_dir =
        Inr (Some (new_name_at name k),
             fmupd (os_path_join dest_dir [new_name_at name k])
               (File (f\<lparr>ctime := now w\<rparr>)) fs)"
    using copy_file_taken[of fs source_dir name f dest_dir k w] by blast
next
  assume a: "copy_file w fs source_dir name dest_dir = Inr (r, fs')"
  obtain k' where ex: "\<forall>j<k'. os_path_exists fs (tried dest_dir name j)"
    and free: "\<not> os_path_exists fs (tried dest_dir name k')"
    and eq: "copy_file w fs source_dir name dest_dir =
         (case shutil_copy2 w fs (os_path_join source_dir [name]) (tried dest_dir name k') of
            Inl e \<Rightarrow> Inl e
          | Inr fs' \<Rightarrow> Inr (if k' = 0 then None else Some (new_name_at name k'), fs'))"
    using copy_file_unfold[of fs dest_dir name w source_dir] by blast
  from a eq have r: "r = (if k' = 0 then None else Some (new_name_at name k'))"
    by (auto split: sum.splits)
  have t0: "tried dest_dir name 0 = os_path_join dest_dir [name]" by (simp add: tried_def)
  show "r = None \<longleftrightarrow> \<not> os_path_exists fs (os_path_join dest_dir [name])"
  proof (cases "k' = 0")
    case True
    with free r t0 show ?thesis by simp
  next
    case False
    then have "0 < k'" by simp
    with ex t0 have "os_path_exists fs (os_path_join dest_dir [name])" by metis
    with False r show ?thesis by simp
  qed
  show "\<forall>n. r = Some n \<longrightarrow> (\<exists>j. 0 < j \<and> n = new_name_at name j)"
    using r by (cases "k' = 0") auto
qed

theorem copy_file_return_witness:
  "copy_file sample_world sample_disk ''s'' ''name'' ''d'' =
     Inr (Some ''name-2'',
          fmupd ''d/name-2'' (File (sample_file\<lparr>ctime := 9\<rparr>)) sample_disk) \<and>
   copy_file sample_world sample_disk ''d'' ''name-1'' ''s'' =
     Inr (None, fmupd ''s/name-1'' (File (sample_file\<lparr>ctime := 9\<rparr>)) sample_disk)"
proof -
  have n1: "new_name_at ''name'' (Suc 0) = ''name-1''" and n2: "new_name_at ''name'' 2 = ''name-2''"
    by (simp_all add: new_name_at_def str.simps digit_char_def)
  have j: "\<And>n. os_path_join ''d'' [n] = join2 ''d'' n" "\<And>n. os_path_join ''s'' [n] = join2 ''s'' n"
    by (simp_all add: os_path_join_def)
  have src: "fmlookup sample_disk (os_path_join ''s'' [''name'']) = Some (File sample_file)"
    by (simp add: j join2_def sample_disk_def)
  have taken: "os_path_exists sample_disk (os_path_join ''d'' [''name''])"
    by (simp add: j join2_def sample_disk_def os_path_exists_def)
  have between: "\<forall>j. 0 < j \<and> j < 2 \<longrightarrow>
      os_path_exists sample_disk (os_path_join ''d'' [new_name_at ''name'' j])"
  proof (intro allI impI)
    fix i :: nat assume "0 < i \<and> i < 2"
    then have "i = Suc 0" by arith
    then show "os_path_exists sample_disk (os_path_join ''d'' [new_name_at ''name'' i])"
      by (simp add: n1 j join2_def sample_disk_def os_path_exists_def)
  qed
  have free: "\<not> os_path_exists sample_disk (os_path_join ''d'' [new_name_at ''name'' 2])"
    by (simp add: n2 j join2_def sample_disk_def os_path_exists_def)
  have par: "fmlookup sample_disk (os_path_dirname (os_path_join ''d'' [new_name_at ''name'' 2])) =
      Some Dir"
    by (simp add: n2 j join2_def os_path_dirname_def rfind_def sample_disk_def)
  from copy_file_return[of sample_disk "''s''" "''name''" sample_file "''d''" sample_world 2]
    src taken between free par
  have 1: "copy_file sample_world sample_disk ''s'' ''name'' ''d'' =
        Inr (Some (new_name_at ''name'' 2),
             fmupd (os_path_join ''d'' [new_name_at ''name'' 2])
               (File (sample_file\<lparr>ctime := now sample_world\<rparr>)) sample_disk)"
    by simp
  have src2: "fmlookup sample_disk (os_path_join ''d'' [''name-1'']) = Some (File sample_file)"
    by (simp add: j join2_def sample_disk_def)
  have free2: "\<not> os_path_exists sample_disk (os_path_join ''s'' [''name-1''])"
    by (simp add: j join2_def sample_disk_def os_path_exists_def)
  have par2: "fmlookup sample_disk (os_path_dirname (os_path_join ''s'' [''name-1''])) = Some Dir"
    by (simp add: j join2_def os_path_dirname_def rfind_def sample_disk_def)
  from copy_file_return[of sample_disk "''d''" "''name-1''" sample_file "''s''" sample_world]
    src2 free2 par2
  have 2: "copy_file sample_world sample_disk ''d'' ''name-1'' ''s'' =
        Inr (None, fmupd (os_path_join ''s'' [''name-1''])
               (File (sample_file\<lparr>ctime := now sample_world\<rparr>)) sample_disk)"
    by simp
  from 1 2 show ?thesis by (simp add: n2 j join2_def sample_world_def)
qed


lemma copy_file_taken_once:
  assumes "new_name_at name 1 = n"
    and "fmlookup fs (os_path_join source_dir [name]) = Some (File f)"
    and "os_path_exists fs (os_path_join dest_dir [name])"
    and "\<not> os_path_exists fs (os_path_join dest_dir [n])"
    and "fmlookup fs (os_path_dirname (os_path_join dest_dir [n])) = Some Dir"
  shows "copy_file w fs source_dir name dest_dir =
           Inr (Some n, fmupd (os_path_join dest_dir [n]) (File (f\<lparr>ctime := now w\<rparr>)) fs)"
  using copy_file_taken[of fs source_dir name f dest_dir 1 w] assms by simp

text \<open>
  C6. Let the original name be taken in the destination and \<open>k\<close> be the first
  count from 1 whose name is free, where the name of a count is the original
  name up to its first dot, then \<open>-\<close> and the count, then the rest of the name
  from that dot on. Then \<open>copy_file\<close> copies the source under the name of count
  \<open>k\<close> and returns it: the count goes into the first dot-separated segment only,
  and a name without a dot gets it at its end. So a taken \<open>name.ext\<close> is copied
  as \<open>name-1.ext\<close>, a taken \<open>my.photo.jpg\<close> as \<open>my-1.photo.jpg\<close> and a taken
  \<open>name\<close> as \<open>name-1\<close>, when these are free. Every name \<open>copy_file\<close> returns has
  this form.
\<close>

theorem copy_file_new_name:
  "(seg = takeWhile (\<lambda>c. c \<noteq> CHR ''.'') name \<and> rest = dropWhile (\<lambda>c. c \<noteq> CHR ''.'') name \<and>
    fmlookup fs (os_path_join source_dir [name]) = Some (File f) \<and>
    os_path_exists fs (os_path_join dest_dir [name]) \<and> 0 < k \<and>
    (\<forall>j. 0 < j \<and> j < k \<longrightarrow>
         os_path_exists fs (os_path_join dest_dir [seg @ ''-'' @ str j @ rest])) \<and>
    \<not> os_path_exists fs (os_path_join dest_dir [seg @ ''-'' @ str k @ rest]) \<and>
    fmlookup fs (os_path_dirname (os_path_join dest_dir [seg @ ''-'' @ str k @ rest])) = Some Dir \<longrightarrow>
      copy_file w fs source_dir name dest_dir =
        Inr (Some (seg @ ''-'' @ str k @ rest),
             fmupd (os_path_join dest_dir [seg @ ''-'' @ str k @ rest])
               (File (f\<lparr>ctime := now w\<rparr>)) fs)) \<and>
   (fmlookup fs (os_path_join source_dir [''name.ext'']) = Some (File f) \<and>
    os_path_exists fs (os_path_join dest_dir [''name.ext'']) \<and>
    \<not> os_path_exists fs (os_path_join dest_dir [''name-1.ext'']) \<and>
    fmlookup fs (os_path_dirname (os_path_join dest_dir [''name-1.ext''])) = Some Dir \<longrightarrow>
      copy_file w fs source_dir ''name.ext'' dest_dir =
        Inr (Some ''name-1.ext'',
             fmupd (os_path_join dest_dir [''name-1.ext'']) (File (f\<lparr>ctime := now w\<rparr>)) fs)) \<and>
   (fmlookup fs (os_path_join source_dir [''my.photo.jpg'']) = Some (File f) \<and>
    os_path_exists fs (os_path_join dest_dir [''my.photo.jpg'']) \<and>
    \<not> os_path_exists fs (os_path_join dest_dir [''my-1.photo.jpg'']) \<and>
    fmlookup fs (os_path_dirname (os_path_join dest_dir [''my-1.photo.jpg''])) = Some Dir \<longrightarrow>
      copy_file w fs source_dir ''my.photo.jpg'' dest_dir =
        Inr (Some ''my-1.photo.jpg'',
             fmupd (os_path_join dest_dir [''my-1.photo.jpg'']) (File (f\<lparr>ctime := now w\<rparr>)) fs)) \<and>
   (fmlookup fs (os_path_join source_dir [''name'']) = Some (File f) \<and>
    os_path_exists fs (os_path_join dest_dir [''name'']) \<and>
    \<not> os_path_exists fs (os_path_join dest_dir [''name-1'']) \<and>
    fmlookup fs (os_path_dirname (os_path_join dest_dir [''name-1''])) = Some Dir \<longrightarrow>
      copy_file w fs source_dir ''name'' dest_dir =
        Inr (Some ''name-1'',
             fmupd (os_path_join dest_dir [''name-1'']) (File (f\<lparr>ctime := now w\<rparr>)) fs)) \<and>
   (copy_file w fs source_dir name dest_dir = Inr (Some n, fs') \<longrightarrow>
      (\<exists>j. 0 < j \<and>
           n = takeWhile (\<lambda>c. c \<noteq> CHR ''.'') name @ ''-'' @ str j @
               dropWhile (\<lambda>c. c \<noteq> CHR ''.'') name))"
proof (intro conjI impI)
  assume h: "seg = takeWhile (\<lambda>c. c \<noteq> CHR ''.'') name \<and> rest = dropWhile (\<lambda>c. c \<noteq> CHR ''.'') name \<and>
    fmlookup fs (os_path_join source_dir [name]) = Some (File f) \<and>
    os_path_exists fs (os_path_join dest_dir [name]) \<and> 0 < k \<and>
    (\<forall>j. 0 < j \<and> j < k \<longrightarrow>
         os_path_exists fs (os_path_join dest_dir [seg @ ''-'' @ str j @ rest])) \<and>
    \<not> os_path_exists fs (os_path_join dest_dir [seg @ ''-'' @ str k @ rest]) \<and>
    fmlookup fs (os_path_dirname (os_path_join dest_dir [seg @ ''-'' @ str k @ rest])) = Some Dir"
  have nm: "\<And>j. new_name_at name j = seg @ ''-'' @ str j @ rest"
    using h by (simp add: new_name_at_eq)
  from h show "copy_file w fs source_dir name dest_dir =
        Inr (Some (seg @ ''-'' @ str k @ rest),
             fmupd (os_path_join dest_dir [seg @ ''-'' @ str k @ rest])
               (File (f\<lparr>ctime := now w\<rparr>)) fs)"
    using copy_file_taken[of fs source_dir name f dest_dir k w] unfolding nm by blast
next
  have n: "new_name_at ''name.ext'' 1 = ''name-1.ext''"
    by (simp add: new_name_at_def str.simps digit_char_def)
  assume "fmlookup fs (os_path_join source_dir [''name.ext'']) = Some (File f) \<and>
    os_path_exists fs (os_path_join dest_dir [''name.ext'']) \<and>
    \<not> os_path_exists fs (os_path_join dest_dir [''name-1.ext'']) \<and>
    fmlookup fs (os_path_dirname (os_path_join dest_dir [''name-1.ext''])) = Some Dir"
  then show "copy_file w fs source_dir ''name.ext'' dest_dir =
        Inr (Some ''name-1.ext'',
             fmupd (os_path_join dest_dir [''name-1.ext'']) (File (f\<lparr>ctime := now w\<rparr>)) fs)"
    using copy_file_taken_once[OF n, of fs source_dir f dest_dir w] by blast
next
  have n: "new_name_at ''my.photo.jpg'' 1 = ''my-1.photo.jpg''"
    by (simp add: new_name_at_def str.simps digit_char_def)
  assume "fmlookup fs (os_path_join source_dir [''my.photo.jpg'']) = Some (File f) \<and>
    os_path_exists fs (os_path_join dest_dir [''my.photo.jpg'']) \<and>
    \<not> os_path_exists fs (os_path_join dest_dir [''my-1.photo.jpg'']) \<and>
    fmlookup fs (os_path_dirname (os_path_join dest_dir [''my-1.photo.jpg''])) = Some Dir"
  then show "copy_file w fs source_dir ''my.photo.jpg'' dest_dir =
        Inr (Some ''my-1.photo.jpg'',
             fmupd (os_path_join dest_dir [''my-1.photo.jpg'']) (File (f\<lparr>ctime := now w\<rparr>)) fs)"
    using copy_file_taken_once[OF n, of fs source_dir f dest_dir w] by blast
next
  have n: "new_name_at ''name'' 1 = ''name-1''"
    by (simp add: new_name_at_def str.simps digit_char_def)
  assume "fmlookup fs (os_path_join source_dir [''name'']) = Some (File f) \<and>
    os_path_exists fs (os_path_join dest_dir [''name'']) \<and>
    \<not> os_path_exists fs (os_path_join dest_dir [''name-1'']) \<and>
    fmlookup fs (os_path_dirname (os_path_join dest_dir [''name-1''])) = Some Dir"
  then show "copy_file w fs source_dir ''name'' dest_dir =
        Inr (Some ''name-1'',
             fmupd (os_path_join dest_dir [''name-1'']) (File (f\<lparr>ctime := now w\<rparr>)) fs)"
    using copy_file_taken_once[OF n, of fs source_dir f dest_dir w] by blast
next
  assume a: "copy_file w fs source_dir name dest_dir = Inr (Some n, fs')"
  obtain k' where eq: "copy_file w fs source_dir name dest_dir =
         (case shutil_copy2 w fs (os_path_join source_dir [name]) (tried dest_dir name k') of
            Inl e \<Rightarrow> Inl e
          | Inr fs' \<Rightarrow> Inr (if k' = 0 then None else Some (new_name_at name k'), fs'))"
    using copy_file_unfold[of fs dest_dir name w source_dir] by blast
  from a eq have "0 < k' \<and> n = new_name_at name k'"
    by (auto split: sum.splits if_splits)
  then show "\<exists>j. 0 < j \<and>
           n = takeWhile (\<lambda>c. c \<noteq> CHR ''.'') name @ ''-'' @ str j @
               dropWhile (\<lambda>c. c \<noteq> CHR ''.'') name"
    using new_name_at_eq[of name k'] by auto
qed


theorem copy_file_new_name_witness:
  "copy_file sample_world sample_disk ''s'' ''name'' ''d'' =
     Inr (Some ''name-2'',
          fmupd ''d/name-2'' (File (sample_file\<lparr>ctime := 9\<rparr>)) sample_disk) \<and>
   copy_file sample_world
     (fmupd ''s/name.ext'' (File sample_file)
        (fmupd ''d/name.ext'' (File sample_file) (fmupd ''d'' Dir fmempty)))
     ''s'' ''name.ext'' ''d'' =
     Inr (Some ''name-1.ext'',
          fmupd ''d/name-1.ext'' (File (sample_file\<lparr>ctime := 9\<rparr>))
            (fmupd ''s/name.ext'' (File sample_file)
               (fmupd ''d/name.ext'' (File sample_file) (fmupd ''d'' Dir fmempty)))) \<and>
   copy_file sample_world sample_disk ''s'' ''my.photo.jpg'' ''d'' =
     Inr (Some ''my-1.photo.jpg'',
          fmupd ''d/my-1.photo.jpg'' (File (sample_file\<lparr>ctime := 9\<rparr>)) sample_disk) \<and>
   copy_file sample_world
     (fmupd ''s/name'' (File sample_file)
        (fmupd ''d/name'' (File sample_file) (fmupd ''d'' Dir fmempty)))
     ''s'' ''name'' ''d'' =
     Inr (Some ''name-1'',
          fmupd ''d/name-1'' (File (sample_file\<lparr>ctime := 9\<rparr>))
            (fmupd ''s/name'' (File sample_file)
               (fmupd ''d/name'' (File sample_file) (fmupd ''d'' Dir fmempty))))"
proof -
  let ?A = "fmupd ''s/name.ext'' (File sample_file)
        (fmupd ''d/name.ext'' (File sample_file) (fmupd ''d'' Dir fmempty))"
  let ?C = "fmupd ''s/name'' (File sample_file)
        (fmupd ''d/name'' (File sample_file) (fmupd ''d'' Dir fmempty))"
  have j: "\<And>n. os_path_join ''d'' [n] = join2 ''d'' n" "\<And>n. os_path_join ''s'' [n] = join2 ''s'' n"
    by (simp_all add: os_path_join_def)
  have s1: "str (Suc 0) = ''1''" and s2: "str 2 = ''2''"
    by (simp_all add: str.simps digit_char_def)
  have between: "\<forall>j. 0 < j \<and> j < 2 \<longrightarrow>
      os_path_exists sample_disk (os_path_join ''d'' [''name'' @ ''-'' @ str j @ []])"
  proof (intro allI impI)
    fix i :: nat assume "0 < i \<and> i < 2"
    then have "i = Suc 0" by arith
    then show "os_path_exists sample_disk (os_path_join ''d'' [''name'' @ ''-'' @ str i @ []])"
      by (simp add: s1 j join2_def sample_disk_def os_path_exists_def)
  qed
  have "copy_file sample_world sample_disk ''s'' ''name'' ''d'' =
        Inr (Some (''name'' @ ''-'' @ str 2 @ []),
             fmupd (os_path_join ''d'' [''name'' @ ''-'' @ str 2 @ []])
               (File (sample_file\<lparr>ctime := now sample_world\<rparr>)) sample_disk)"
    using copy_file_new_name[where seg = "''name''" and rest = "[]" and name = "''name''"
        and fs = sample_disk and source_dir = "''s''" and dest_dir = "''d''" and f = sample_file
        and k = 2 and w = sample_world] between
    by (simp add: s2 j join2_def sample_disk_def os_path_exists_def os_path_dirname_def rfind_def)
  then have 1: "copy_file sample_world sample_disk ''s'' ''name'' ''d'' =
     Inr (Some ''name-2'',
          fmupd ''d/name-2'' (File (sample_file\<lparr>ctime := 9\<rparr>)) sample_disk)"
    by (simp add: s2 j join2_def sample_world_def)
  have 2: "copy_file sample_world ?A ''s'' ''name.ext'' ''d'' =
     Inr (Some ''name-1.ext'', fmupd ''d/name-1.ext'' (File (sample_file\<lparr>ctime := 9\<rparr>)) ?A)"
    using copy_file_new_name[where fs = ?A and source_dir = "''s''" and dest_dir = "''d''"
        and f = sample_file and w = sample_world]
    by (simp add: j join2_def os_path_exists_def os_path_dirname_def rfind_def sample_world_def)
  have 3: "copy_file sample_world sample_disk ''s'' ''my.photo.jpg'' ''d'' =
     Inr (Some ''my-1.photo.jpg'',
          fmupd ''d/my-1.photo.jpg'' (File (sample_file\<lparr>ctime := 9\<rparr>)) sample_disk)"
    using copy_file_new_name[where fs = sample_disk and source_dir = "''s''" and dest_dir = "''d''"
        and f = sample_file and w = sample_world]
    by (simp add: j join2_def os_path_exists_def os_path_dirname_def rfind_def sample_world_def
        sample_disk_def)
  have 4: "copy_file sample_world ?C ''s'' ''name'' ''d'' =
     Inr (Some ''name-1'', fmupd ''d/name-1'' (File (sample_file\<lparr>ctime := 9\<rparr>)) ?C)"
    using copy_file_new_name[where fs = ?C and source_dir = "''s''" and dest_dir = "''d''"
        and f = sample_file and w = sample_world]
    by (simp add: j join2_def os_path_exists_def os_path_dirname_def rfind_def sample_world_def)
  from 1 2 3 4 show ?thesis by blast
qed

section \<open>The directory namer\<close>

lemma str_split_append:
  "str_split c (xs @ c # ys) = str_split c xs @ str_split c ys"
proof (induction xs)
  case Nil
  then show ?case by simp
next
  case (Cons x xs)
  obtain p ps where sp: "str_split c xs = p # ps"
    using str_split_nonempty[of c xs] by (cases "str_split c xs") auto
  with Cons show ?case by (simp add: Let_def)
qed

lemma str_split_single: "c \<notin> set s \<Longrightarrow> str_split c s = [s]"
  by (induction s) (auto simp: Let_def)

lemma mkdir_missing_lookup:
  "fmlookup (mkdir_missing d fs) q =
     (if os_path_exists fs q then fmlookup fs q else if q = d then Some Dir else None)"
  by (auto simp: mkdir_missing_def os_path_exists_def)

lemma fold_mkdir_missing_lookup:
  "fmlookup (fold mkdir_missing ds fs) q =
     (if os_path_exists fs q then fmlookup fs q else if q \<in> set ds then Some Dir else None)"
proof (induction ds arbitrary: fs)
  case Nil
  then show ?case by (simp add: os_path_exists_def)
next
  case (Cons d ds)
  show ?case
    by (simp add: Cons.IH mkdir_missing_lookup os_path_exists_def)
qed

lemma ancestors_from_mem:
  "seen @ xs \<noteq> [] \<Longrightarrow> last (seen @ xs) \<noteq> CHR ''/'' \<Longrightarrow>
     seen @ xs \<in> set (ancestors_from seen (xs @ CHR ''/'' # ys))"
proof (induction xs arbitrary: seen)
  case Nil
  then show ?case by simp
next
  case (Cons x xs)
  from Cons.IH[of "seen @ [x]"] Cons.prems show ?case by simp
qed

lemma ancestors_mem:
  "a \<noteq> [] \<Longrightarrow> last a \<noteq> CHR ''/'' \<Longrightarrow> a \<in> set (ancestors (a @ CHR ''/'' # b))"
  using ancestors_from_mem[of "[]" a b] by (simp add: ancestors_def)

lemma os_makedirs_Inr:
  assumes "os_makedirs fs p = Inr fs'"
  shows "fmlookup fs' q =
           (if os_path_exists fs q then fmlookup fs q
            else if q \<in> set (ancestors p @ [p]) then Some Dir else None)"
    and "\<not> os_path_exists fs p"
    and "\<forall>d \<in> set (ancestors p). \<forall>f. fmlookup fs d \<noteq> Some (File f)"
proof -
  from assms have fs': "fs' = fold mkdir_missing (ancestors p @ [p]) fs"
    and ne: "\<not> os_path_exists fs p"
    and nf: "\<not> list_ex (\<lambda>d. case fmlookup fs d of Some (File f) \<Rightarrow> True | _ \<Rightarrow> False) (ancestors p)"
    by (auto simp: os_makedirs_def split: if_splits)
  show "fmlookup fs' q =
           (if os_path_exists fs q then fmlookup fs q
            else if q \<in> set (ancestors p @ [p]) then Some Dir else None)"
    unfolding fs' by (rule fold_mkdir_missing_lookup)
  show "\<not> os_path_exists fs p" by (rule ne)
  show "\<forall>d \<in> set (ancestors p). \<forall>f. fmlookup fs d \<noteq> Some (File f)"
    using nf by (auto simp: list_ex_iff)
qed

lemma os_makedirs_Inl:
  assumes "os_makedirs fs p = Inl e" and "p \<noteq> []" and "\<not> os_path_exists fs p"
  shows "e = NotADirectoryError"
  using assms by (auto simp: os_makedirs_def split: if_splits)

text \<open>The joined path, for components that are plain names.\<close>

lemma join2_plain:
  "b \<noteq> [] \<Longrightarrow> hd b \<noteq> CHR ''/'' \<Longrightarrow>
     join2 a b = (if a = [] \<or> last a = CHR ''/'' then a else a @ ''/'') @ b"
  by (simp add: join2_def)

lemma create_dir_join:
  assumes "media_dir \<noteq> []" "CHR ''/'' \<notin> set media_dir" "y \<noteq> []" "CHR ''/'' \<notin> set y"
  shows "os_path_join base_dir [media_dir, y, y @ ''-'' @ m] =
           (if base_dir = [] \<or> last base_dir = CHR ''/'' then base_dir else base_dir @ ''/'')
           @ media_dir @ ''/'' @ y @ ''/'' @ y @ ''-'' @ m"
proof -
  have hm: "hd media_dir \<noteq> CHR ''/''" "last media_dir \<noteq> CHR ''/''"
    using assms(1,2) by (metis hd_in_set, metis last_in_set)
  have hy: "hd y \<noteq> CHR ''/''" "last y \<noteq> CHR ''/''"
    using assms(3,4) by (metis hd_in_set, metis last_in_set)
  let ?r = "(if base_dir = [] \<or> last base_dir = CHR ''/'' then base_dir else base_dir @ ''/'')"
  have 1: "join2 base_dir media_dir = ?r @ media_dir"
    using assms(1) hm by (simp add: join2_plain)
  have 2: "join2 (?r @ media_dir) y = ?r @ media_dir @ ''/'' @ y"
    using assms(1,3) hm hy by (simp add: join2_def)
  have 3: "join2 (?r @ media_dir @ ''/'' @ y) (y @ ''-'' @ m) =
             ?r @ media_dir @ ''/'' @ y @ ''/'' @ y @ ''-'' @ m"
    using assms(3) hy by (simp add: join2_def)
  show ?thesis unfolding os_path_join_def by (simp only: foldl.simps 1 2 3)
qed


lemma os_path_join_nonempty:
  "os_path_join base_dir [media_dir, p0, p0 @ ''-'' @ p1] \<noteq> []"
  by (simp add: os_path_join_def join2_def)

lemma create_dir_cases:
  assumes "str_split CHR '':'' date_string = p0 # p1 # rest"
  shows "create_dir fs base_dir date_string media_dir =
           (let new_dir = os_path_join base_dir [media_dir, p0, p0 @ ''-'' @ p1]
            in if os_path_exists fs new_dir then Inr (new_dir, fs)
               else case os_makedirs fs new_dir of
                      Inl e \<Rightarrow> Inl e
                    | Inr fs' \<Rightarrow> Inr (new_dir, fs'))"
  using assms by (simp add: create_dir_def Let_def)

lemma create_dir_Inr_parts:
  assumes "create_dir fs base_dir date_string media_dir = Inr (new_dir, fs')"
  obtains p0 p1 rest where "str_split CHR '':'' date_string = p0 # p1 # rest"
  using assms by (auto simp: create_dir_def split: list.splits)

lemma create_dir_Inr:
  assumes "str_split CHR '':'' date_string = p0 # p1 # rest"
    and "create_dir fs base_dir date_string media_dir = Inr (new_dir, fs')"
  shows "new_dir = os_path_join base_dir [media_dir, p0, p0 @ ''-'' @ p1]"
    and "os_path_exists fs new_dir \<Longrightarrow> fs' = fs"
    and "\<not> os_path_exists fs new_dir \<Longrightarrow> os_makedirs fs new_dir = Inr fs'"
  using assms(2) unfolding create_dir_cases[OF assms(1)] Let_def
  by (auto split: if_splits sum.splits)

lemma create_dir_exists_after:
  assumes "create_dir fs base_dir date_string media_dir = Inr (new_dir, fs')"
  shows "os_path_exists fs' new_dir"
proof -
  from assms obtain p0 p1 rest where sp: "str_split CHR '':'' date_string = p0 # p1 # rest"
    by (rule create_dir_Inr_parts)
  note c = create_dir_Inr[OF sp assms]
  show ?thesis
  proof (cases "os_path_exists fs new_dir")
    case True
    with c(2) show ?thesis by simp
  next
    case False
    from os_makedirs_Inr(1)[OF c(3)[OF False], of new_dir] False
    show ?thesis by (simp add: os_path_exists_def)
  qed
qed

text \<open>
  C7. A second call of \<open>create_dir\<close> with the same arguments, on the file system
  the first call left, raises nothing, returns the same path and leaves the file
  system as it is. A call that finds the directory in place returns its path and
  changes nothing.
\<close>

theorem create_dir_idempotent:
  "(create_dir fs base_dir date_string media_dir = Inr (new_dir, fs') \<longrightarrow>
      create_dir fs' base_dir date_string media_dir = Inr (new_dir, fs')) \<and>
   (str_split CHR '':'' date_string = y # m # rest \<and>
    os_path_exists fs (os_path_join base_dir [media_dir, y, y @ ''-'' @ m]) \<longrightarrow>
      create_dir fs base_dir date_string media_dir =
        Inr (os_path_join base_dir [media_dir, y, y @ ''-'' @ m], fs))"
proof (intro conjI impI)
  assume a: "create_dir fs base_dir date_string media_dir = Inr (new_dir, fs')"
  from a obtain p0 p1 rest where sp: "str_split CHR '':'' date_string = p0 # p1 # rest"
    by (rule create_dir_Inr_parts)
  have n: "new_dir = os_path_join base_dir [media_dir, p0, p0 @ ''-'' @ p1]"
    by (rule create_dir_Inr(1)[OF sp a])
  have "os_path_exists fs' new_dir" by (rule create_dir_exists_after[OF a])
  then show "create_dir fs' base_dir date_string media_dir = Inr (new_dir, fs')"
    unfolding create_dir_cases[OF sp] Let_def n by simp
next
  assume "str_split CHR '':'' date_string = y # m # rest \<and>
    os_path_exists fs (os_path_join base_dir [media_dir, y, y @ ''-'' @ m])"
  then show "create_dir fs base_dir date_string media_dir =
        Inr (os_path_join base_dir [media_dir, y, y @ ''-'' @ m], fs)"
    by (simp add: create_dir_cases Let_def)
qed

lemma sample_create_dir:
  "create_dir sample_disk ''d'' ''2020:01:15 10:00:00'' ''Pictures'' =
     Inr (''d/Pictures/2020/2020-01'',
          fmupd ''d/Pictures/2020/2020-01'' Dir
            (fmupd ''d/Pictures/2020'' Dir (fmupd ''d/Pictures'' Dir sample_disk)))"
  by (simp add: create_dir_def os_path_join_def join2_def os_path_exists_def os_makedirs_def
      ancestors_def mkdir_missing_def sample_disk_def Let_def)

theorem create_dir_idempotent_witness:
  "create_dir
     (fmupd ''d/Pictures/2020/2020-01'' Dir
        (fmupd ''d/Pictures/2020'' Dir (fmupd ''d/Pictures'' Dir sample_disk)))
     ''d'' ''2020:01:15 10:00:00'' ''Pictures'' =
   Inr (''d/Pictures/2020/2020-01'',
        fmupd ''d/Pictures/2020/2020-01'' Dir
          (fmupd ''d/Pictures/2020'' Dir (fmupd ''d/Pictures'' Dir sample_disk))) \<and>
   create_dir (fmupd ''d/Other/x/x-y'' Dir fmempty) ''d'' ''x:y'' ''Other'' =
   Inr (''d/Other/x/x-y'', fmupd ''d/Other/x/x-y'' Dir fmempty)"
proof -
  have 1: "create_dir
     (fmupd ''d/Pictures/2020/2020-01'' Dir
        (fmupd ''d/Pictures/2020'' Dir (fmupd ''d/Pictures'' Dir sample_disk)))
     ''d'' ''2020:01:15 10:00:00'' ''Pictures'' =
   Inr (''d/Pictures/2020/2020-01'',
        fmupd ''d/Pictures/2020/2020-01'' Dir
          (fmupd ''d/Pictures/2020'' Dir (fmupd ''d/Pictures'' Dir sample_disk)))"
    using create_dir_idempotent[of sample_disk "''d''" "''2020:01:15 10:00:00''" "''Pictures''"
      "''d/Pictures/2020/2020-01''"
      "fmupd ''d/Pictures/2020/2020-01'' Dir
          (fmupd ''d/Pictures/2020'' Dir (fmupd ''d/Pictures'' Dir sample_disk))"]
      sample_create_dir
    by blast
  have sp: "str_split CHR '':'' ''x:y'' = ''x'' # ''y'' # []" by (simp add: Let_def)
  have j: "os_path_join ''d'' [''Other'', ''x'', ''x'' @ ''-'' @ ''y''] = ''d/Other/x/x-y''"
    by (simp add: os_path_join_def join2_def)
  have ex: "os_path_exists (fmupd ''d/Other/x/x-y'' Dir fmempty)
              (os_path_join ''d'' [''Other'', ''x'', ''x'' @ ''-'' @ ''y''])"
    unfolding j by (simp add: os_path_exists_def)
  have 2: "create_dir (fmupd ''d/Other/x/x-y'' Dir fmempty) ''d'' ''x:y'' ''Other'' =
             Inr (''d/Other/x/x-y'', fmupd ''d/Other/x/x-y'' Dir fmempty)"
    using create_dir_idempotent[where fs = "fmupd ''d/Other/x/x-y'' Dir fmempty"
        and base_dir = "''d''" and date_string = "''x:y''" and media_dir = "''Other''"
        and y = "''x''" and m = "''y''" and rest = "[]"] sp ex
    unfolding j by blast
  from 1 2 show ?thesis by blast
qed


lemma segments_of_path:
  assumes "media_dir \<noteq> []" "CHR ''/'' \<notin> set media_dir" "CHR ''/'' \<notin> set y"
    "CHR ''/'' \<notin> set ym" "r = [] \<or> last r = CHR ''/''"
  shows "\<exists>pre. str_split CHR ''/'' (r @ media_dir @ ''/'' @ y @ ''/'' @ ym) = pre @ [media_dir, y, ym]"
proof -
  have t: "str_split CHR ''/'' ((r @ media_dir) @ CHR ''/'' # (y @ CHR ''/'' # ym)) =
             str_split CHR ''/'' (r @ media_dir) @ [y, ym]"
    using assms(3,4) by (simp only: str_split_append) (simp add: str_split_single)
  have "\<exists>pre0. str_split CHR ''/'' (r @ media_dir) = pre0 @ [media_dir]"
  proof (cases "r = []")
    case True
    with assms(2) have "str_split CHR ''/'' (r @ media_dir) = [] @ [media_dir]"
      by (simp add: str_split_single)
    then show ?thesis by blast
  next
    case False
    with assms(5) obtain r0 where r0: "r = r0 @ [CHR ''/'']"
      by (metis append_butlast_last_id)
    have "str_split CHR ''/'' (r0 @ CHR ''/'' # media_dir) = str_split CHR ''/'' r0 @ [media_dir]"
      using assms(2) by (simp only: str_split_append) (simp add: str_split_single)
    then have "str_split CHR ''/'' (r @ media_dir) = str_split CHR ''/'' r0 @ [media_dir]"
      unfolding r0 by simp
    then show ?thesis by blast
  qed
  then obtain pre0 where "str_split CHR ''/'' (r @ media_dir) = pre0 @ [media_dir]" by blast
  with t have "str_split CHR ''/'' (r @ media_dir @ ''/'' @ y @ ''/'' @ ym) = pre0 @ [media_dir, y, ym]"
    by simp
  then show ?thesis by blast
qed

lemma ancestors_from_prefix:
  "a \<in> set (ancestors_from seen xs) \<Longrightarrow>
     \<exists>pre b. xs = pre @ CHR ''/'' # b \<and> a = seen @ pre \<and> a \<noteq> [] \<and> last a \<noteq> CHR ''/''"
proof (induction xs arbitrary: seen)
  case Nil
  then show ?case by simp
next
  case (Cons c cs)
  from Cons.prems consider
    (here) "c = CHR ''/''" "seen \<noteq> []" "last seen \<noteq> CHR ''/''" "a = seen"
    | (later) "a \<in> set (ancestors_from (seen @ [c]) cs)"
    by (auto split: if_splits)
  then show ?case
  proof cases
    case here
    then have "c # cs = [] @ CHR ''/'' # cs \<and> a = seen @ [] \<and> a \<noteq> [] \<and> last a \<noteq> CHR ''/''"
      by simp
    then show ?thesis by blast
  next
    case later
    from Cons.IH[OF later] obtain pre b where
      "cs = pre @ CHR ''/'' # b" "a = (seen @ [c]) @ pre" "a \<noteq> []" "last a \<noteq> CHR ''/''"
      by blast
    then have "c # cs = (c # pre) @ CHR ''/'' # b \<and> a = seen @ (c # pre) \<and> a \<noteq> [] \<and>
               last a \<noteq> CHR ''/''"
      by simp
    then show ?thesis by blast
  qed
qed

text \<open>The directories above a path are its prefixes that end before a separator.\<close>

lemma ancestors_iff:
  "a \<in> set (ancestors p) \<longleftrightarrow>
     (\<exists>b. p = a @ CHR ''/'' # b \<and> a \<noteq> [] \<and> last a \<noteq> CHR ''/'')"
proof
  assume "a \<in> set (ancestors p)"
  then show "\<exists>b. p = a @ CHR ''/'' # b \<and> a \<noteq> [] \<and> last a \<noteq> CHR ''/''"
    using ancestors_from_prefix[of a "[]" p] by (auto simp: ancestors_def)
next
  assume "\<exists>b. p = a @ CHR ''/'' # b \<and> a \<noteq> [] \<and> last a \<noteq> CHR ''/''"
  then show "a \<in> set (ancestors p)" using ancestors_mem by blast
qed

text \<open>
  \<open>create_dir\<close> succeeds when the path exists, or no regular file stands at a
  prefix of it; the lookup of the new file system is then known everywhere.
\<close>

lemma create_dir_succeeds:
  assumes sp: "str_split CHR '':'' date_string = p0 # p1 # rest"
    and nd: "new_dir = os_path_join base_dir [media_dir, p0, p0 @ ''-'' @ p1]"
    and ok: "os_path_exists fs new_dir \<or>
             (\<forall>a b. new_dir = a @ CHR ''/'' # b \<and> a \<noteq> [] \<and> last a \<noteq> CHR ''/'' \<longrightarrow>
                    (\<forall>f. fmlookup fs a \<noteq> Some (File f)))"
  shows "\<exists>fs'. create_dir fs base_dir date_string media_dir = Inr (new_dir, fs') \<and>
           (\<forall>q. fmlookup fs' q =
                  (if os_path_exists fs q then fmlookup fs q
                   else if \<not> os_path_exists fs new_dir \<and>
                           (q = new_dir \<or>
                            (\<exists>b. new_dir = q @ CHR ''/'' # b \<and> q \<noteq> [] \<and> last q \<noteq> CHR ''/''))
                        then Some Dir else None))"
proof (cases "os_path_exists fs new_dir")
  case True
  then have "create_dir fs base_dir date_string media_dir = Inr (new_dir, fs)"
    unfolding create_dir_cases[OF sp] Let_def nd by simp
  moreover have "\<forall>q. fmlookup fs q =
                  (if os_path_exists fs q then fmlookup fs q
                   else if \<not> os_path_exists fs new_dir \<and>
                           (q = new_dir \<or>
                            (\<exists>b. new_dir = q @ CHR ''/'' # b \<and> q \<noteq> [] \<and> last q \<noteq> CHR ''/''))
                        then Some Dir else None)"
    using True by (auto simp: os_path_exists_def)
  ultimately show ?thesis by blast
next
  case False
  with ok have free: "\<forall>a \<in> set (ancestors new_dir). \<forall>f. fmlookup fs a \<noteq> Some (File f)"
    by (auto simp: ancestors_iff)
  have nf: "\<not> list_ex (\<lambda>d. case fmlookup fs d of Some (File f) \<Rightarrow> True | _ \<Rightarrow> False)
              (ancestors new_dir)"
  proof
    assume "list_ex (\<lambda>d. case fmlookup fs d of Some (File f) \<Rightarrow> True | _ \<Rightarrow> False)
              (ancestors new_dir)"
    then obtain d where d: "d \<in> set (ancestors new_dir)"
      "(case fmlookup fs d of Some (File f) \<Rightarrow> True | _ \<Rightarrow> False)"
      by (auto simp: list_ex_iff)
    then obtain f where "fmlookup fs d = Some (File f)"
      by (auto split: option.splits node.splits)
    with free d(1) show False by blast
  qed
  have ne: "new_dir \<noteq> []" unfolding nd by (rule os_path_join_nonempty)
  let ?fs' = "fold mkdir_missing (ancestors new_dir @ [new_dir]) fs"
  have mk: "os_makedirs fs new_dir = Inr ?fs'"
    using ne False nf by (simp add: os_makedirs_def)
  then have "create_dir fs base_dir date_string media_dir = Inr (new_dir, ?fs')"
    unfolding create_dir_cases[OF sp] Let_def nd[symmetric] using False by simp
  moreover have "\<forall>q. fmlookup ?fs' q =
                  (if os_path_exists fs q then fmlookup fs q
                   else if \<not> os_path_exists fs new_dir \<and>
                           (q = new_dir \<or>
                            (\<exists>b. new_dir = q @ CHR ''/'' # b \<and> q \<noteq> [] \<and> last q \<noteq> CHR ''/''))
                        then Some Dir else None)"
  proof
    fix q
    have "fmlookup ?fs' q =
            (if os_path_exists fs q then fmlookup fs q
             else if q \<in> set (ancestors new_dir @ [new_dir]) then Some Dir else None)"
      by (rule fold_mkdir_missing_lookup)
    moreover have "q \<in> set (ancestors new_dir @ [new_dir]) \<longleftrightarrow>
        (q = new_dir \<or> (\<exists>b. new_dir = q @ CHR ''/'' # b \<and> q \<noteq> [] \<and> last q \<noteq> CHR ''/''))"
      using ancestors_iff[of q new_dir] by auto
    ultimately show "fmlookup ?fs' q =
                  (if os_path_exists fs q then fmlookup fs q
                   else if \<not> os_path_exists fs new_dir \<and>
                           (q = new_dir \<or>
                            (\<exists>b. new_dir = q @ CHR ''/'' # b \<and> q \<noteq> [] \<and> last q \<noteq> CHR ''/''))
                        then Some Dir else None)"
      using False by simp
  qed
  ultimately show ?thesis by blast
qed


text \<open>
  C8. Take a date string with a colon whose year and month parts, like the
  category label, are plain names (no separator in them), and let the path be
  the root, a separator unless the root is empty or ends with one, and
  \<open>category/YYYY/YYYY-MM\<close>. If the path exists already, or no regular file stands
  at a prefix of it, \<open>create_dir\<close> succeeds and returns this path. The file system
  it leaves keeps every existing entry; when the path did not exist, the path
  and every prefix of it that ends before a separator and was missing is a
  directory afterwards, and nothing else is added. The last three segments of
  the path are the category, \<open>YYYY\<close> and \<open>YYYY-MM\<close>. With such a date the only
  error \<open>create_dir\<close> can raise is that of a regular file standing where a
  directory is needed. For the date \<open>2017:06:19 12:26:16\<close> and the category
  \<open>Pictures\<close> the path returned ends with the segments \<open>Pictures\<close>, \<open>2017\<close>,
  \<open>2017-06\<close>.
\<close>

theorem create_dir_path:
  "(str_split CHR '':'' date_string = y # m # rest \<and>
    media_dir \<noteq> [] \<and> CHR ''/'' \<notin> set media_dir \<and>
    y \<noteq> [] \<and> CHR ''/'' \<notin> set y \<and> CHR ''/'' \<notin> set m \<and>
    new_dir = (if base_dir = [] \<or> last base_dir = CHR ''/'' then base_dir else base_dir @ ''/'')
              @ media_dir @ ''/'' @ y @ ''/'' @ y @ ''-'' @ m \<longrightarrow>
      ((os_path_exists fs new_dir \<or>
        (\<forall>a b. new_dir = a @ CHR ''/'' # b \<and> a \<noteq> [] \<and> last a \<noteq> CHR ''/'' \<longrightarrow>
               (\<forall>f. fmlookup fs a \<noteq> Some (File f)))) \<longrightarrow>
         (\<exists>fs'. create_dir fs base_dir date_string media_dir = Inr (new_dir, fs') \<and>
            (\<forall>q. fmlookup fs' q =
                   (if os_path_exists fs q then fmlookup fs q
                    else if \<not> os_path_exists fs new_dir \<and>
                            (q = new_dir \<or>
                             (\<exists>b. new_dir = q @ CHR ''/'' # b \<and> q \<noteq> [] \<and> last q \<noteq> CHR ''/''))
                         then Some Dir else None)))) \<and>
      (\<forall>p fs'. create_dir fs base_dir date_string media_dir = Inr (p, fs') \<longrightarrow> p = new_dir) \<and>
      (\<exists>pre. str_split CHR ''/'' new_dir = pre @ [media_dir, y, y @ ''-'' @ m])) \<and>
   (str_split CHR '':'' date_string = y # m # rest \<and>
    create_dir fs base_dir date_string media_dir = Inl e \<longrightarrow> e = NotADirectoryError) \<and>
   (new_dir = (if base_dir = [] \<or> last base_dir = CHR ''/'' then base_dir else base_dir @ ''/'')
              @ ''Pictures/2017/2017-06'' \<and>
    (os_path_exists fs new_dir \<or>
     (\<forall>a b. new_dir = a @ CHR ''/'' # b \<and> a \<noteq> [] \<and> last a \<noteq> CHR ''/'' \<longrightarrow>
            (\<forall>f. fmlookup fs a \<noteq> Some (File f)))) \<longrightarrow>
      (\<exists>fs'. create_dir fs base_dir ''2017:06:19 12:26:16'' ''Pictures'' = Inr (new_dir, fs') \<and>
             os_path_exists fs' new_dir) \<and>
      (\<exists>pre. str_split CHR ''/'' new_dir = pre @ [''Pictures'', ''2017'', ''2017-06'']))"
proof (intro conjI impI)
  let ?r = "(if base_dir = [] \<or> last base_dir = CHR ''/'' then base_dir else base_dir @ ''/'')"
  assume h: "str_split CHR '':'' date_string = y # m # rest \<and>
    media_dir \<noteq> [] \<and> CHR ''/'' \<notin> set media_dir \<and>
    y \<noteq> [] \<and> CHR ''/'' \<notin> set y \<and> CHR ''/'' \<notin> set m \<and>
    new_dir = ?r @ media_dir @ ''/'' @ y @ ''/'' @ y @ ''-'' @ m"
  then have sp: "str_split CHR '':'' date_string = y # m # rest"
    and md: "media_dir \<noteq> []" "CHR ''/'' \<notin> set media_dir"
    and yy: "y \<noteq> []" "CHR ''/'' \<notin> set y" and mm: "CHR ''/'' \<notin> set m"
    and n: "new_dir = ?r @ media_dir @ ''/'' @ y @ ''/'' @ y @ ''-'' @ m"
    by blast+
  have nd: "new_dir = os_path_join base_dir [media_dir, y, y @ ''-'' @ m]"
    unfolding n using create_dir_join[OF md yy, of base_dir m] by simp
  show "\<exists>fs'. create_dir fs base_dir date_string media_dir = Inr (new_dir, fs') \<and>
            (\<forall>q. fmlookup fs' q =
                   (if os_path_exists fs q then fmlookup fs q
                    else if \<not> os_path_exists fs new_dir \<and>
                            (q = new_dir \<or>
                             (\<exists>b. new_dir = q @ CHR ''/'' # b \<and> q \<noteq> [] \<and> last q \<noteq> CHR ''/''))
                         then Some Dir else None))"
    if "os_path_exists fs new_dir \<or>
        (\<forall>a b. new_dir = a @ CHR ''/'' # b \<and> a \<noteq> [] \<and> last a \<noteq> CHR ''/'' \<longrightarrow>
               (\<forall>f. fmlookup fs a \<noteq> Some (File f)))"
    by (rule create_dir_succeeds[OF sp nd that])
  show "\<forall>p fs'. create_dir fs base_dir date_string media_dir = Inr (p, fs') \<longrightarrow> p = new_dir"
    using create_dir_Inr(1)[OF sp] nd by blast
  have "CHR ''/'' \<notin> set (y @ ''-'' @ m)" using yy mm by simp
  moreover have "?r = [] \<or> last ?r = CHR ''/''" by simp
  ultimately show "\<exists>pre. str_split CHR ''/'' new_dir = pre @ [media_dir, y, y @ ''-'' @ m]"
    unfolding n using segments_of_path[OF md yy(2), of "y @ ''-'' @ m" ?r] by blast
next
  assume h: "str_split CHR '':'' date_string = y # m # rest \<and>
    create_dir fs base_dir date_string media_dir = Inl e"
  then have sp: "str_split CHR '':'' date_string = y # m # rest"
    and cd: "create_dir fs base_dir date_string media_dir = Inl e" by simp_all
  let ?p = "os_path_join base_dir [media_dir, y, y @ ''-'' @ m]"
  from cd have "\<not> os_path_exists fs ?p \<and> os_makedirs fs ?p = Inl e"
    unfolding create_dir_cases[OF sp] Let_def by (auto split: if_splits sum.splits)
  then show "e = NotADirectoryError"
    using os_makedirs_Inl[of fs ?p e] os_path_join_nonempty[of base_dir media_dir y m] by blast
next
  let ?r = "(if base_dir = [] \<or> last base_dir = CHR ''/'' then base_dir else base_dir @ ''/'')"
  assume h: "new_dir = ?r @ ''Pictures/2017/2017-06'' \<and>
    (os_path_exists fs new_dir \<or>
     (\<forall>a b. new_dir = a @ CHR ''/'' # b \<and> a \<noteq> [] \<and> last a \<noteq> CHR ''/'' \<longrightarrow>
            (\<forall>f. fmlookup fs a \<noteq> Some (File f))))"
  then have n: "new_dir = ?r @ ''Pictures/2017/2017-06''"
    and ok: "os_path_exists fs new_dir \<or>
     (\<forall>a b. new_dir = a @ CHR ''/'' # b \<and> a \<noteq> [] \<and> last a \<noteq> CHR ''/'' \<longrightarrow>
            (\<forall>f. fmlookup fs a \<noteq> Some (File f)))" by blast+
  have sp: "str_split CHR '':'' ''2017:06:19 12:26:16'' = [''2017'', ''06'', ''19 12'', ''26'', ''16'']"
    by (simp add: Let_def)
  have "os_path_join base_dir [''Pictures'', ''2017'', ''2017'' @ ''-'' @ ''06''] =
          ?r @ ''Pictures'' @ ''/'' @ ''2017'' @ ''/'' @ ''2017'' @ ''-'' @ ''06''"
    by (rule create_dir_join) simp_all
  then have nd: "new_dir = os_path_join base_dir [''Pictures'', ''2017'', ''2017'' @ ''-'' @ ''06'']"
    unfolding n by simp
  from create_dir_succeeds[OF sp nd ok] obtain fs' where
    c: "create_dir fs base_dir ''2017:06:19 12:26:16'' ''Pictures'' = Inr (new_dir, fs')" by blast
  from create_dir_exists_after[OF c] c
  show "\<exists>fs'. create_dir fs base_dir ''2017:06:19 12:26:16'' ''Pictures'' = Inr (new_dir, fs') \<and>
             os_path_exists fs' new_dir" by blast
next
  let ?r = "(if base_dir = [] \<or> last base_dir = CHR ''/'' then base_dir else base_dir @ ''/'')"
  assume h: "new_dir = ?r @ ''Pictures/2017/2017-06'' \<and>
    (os_path_exists fs new_dir \<or>
     (\<forall>a b. new_dir = a @ CHR ''/'' # b \<and> a \<noteq> [] \<and> last a \<noteq> CHR ''/'' \<longrightarrow>
            (\<forall>f. fmlookup fs a \<noteq> Some (File f))))"
  then have n: "new_dir = ?r @ ''Pictures'' @ ''/'' @ ''2017'' @ ''/'' @ ''2017-06''" by simp
  have "?r = [] \<or> last ?r = CHR ''/''" by simp
  then show "\<exists>pre. str_split CHR ''/'' new_dir = pre @ [''Pictures'', ''2017'', ''2017-06'']"
    unfolding n using segments_of_path[of "''Pictures''" "''2017''" "''2017-06''" ?r] by simp
qed


lemma sample_create_dir_blocked:
  "\<exists>e. create_dir (fmupd ''d/Pictures'' (File sample_file) (fmupd ''d'' Dir fmempty))
          ''d'' ''2020:01:15 10:00:00'' ''Pictures'' = Inl e"
  by (simp add: create_dir_def os_path_join_def join2_def os_path_exists_def os_makedirs_def
      ancestors_def Let_def)

lemma sample_unblocked:
  "\<forall>a b. ''d/Pictures/2020/2020-01'' = a @ CHR ''/'' # b \<and> a \<noteq> [] \<and> last a \<noteq> CHR ''/'' \<longrightarrow>
         (\<forall>f. fmlookup sample_disk a \<noteq> Some (File f))"
proof (intro allI impI)
  fix a b f
  assume "''d/Pictures/2020/2020-01'' = a @ CHR ''/'' # b \<and> a \<noteq> [] \<and> last a \<noteq> CHR ''/''"
  then have "a \<in> set (ancestors ''d/Pictures/2020/2020-01'')"
    using ancestors_iff[of a "''d/Pictures/2020/2020-01''"] by blast
  then have "a = ''d'' \<or> a = ''d/Pictures'' \<or> a = ''d/Pictures/2020''"
    by (simp add: ancestors_def)
  then show "fmlookup sample_disk a \<noteq> Some (File f)"
    by (elim disjE) (simp_all add: sample_disk_def)
qed

lemma sample_unblocked_2017:
  "\<forall>a b. ''d/Pictures/2017/2017-06'' = a @ CHR ''/'' # b \<and> a \<noteq> [] \<and> last a \<noteq> CHR ''/'' \<longrightarrow>
         (\<forall>f. fmlookup sample_disk a \<noteq> Some (File f))"
proof (intro allI impI)
  fix a b f
  assume "''d/Pictures/2017/2017-06'' = a @ CHR ''/'' # b \<and> a \<noteq> [] \<and> last a \<noteq> CHR ''/''"
  then have "a \<in> set (ancestors ''d/Pictures/2017/2017-06'')"
    using ancestors_iff[of a "''d/Pictures/2017/2017-06''"] by blast
  then have "a = ''d'' \<or> a = ''d/Pictures'' \<or> a = ''d/Pictures/2017''"
    by (simp add: ancestors_def)
  then show "fmlookup sample_disk a \<noteq> Some (File f)"
    by (elim disjE) (simp_all add: sample_disk_def)
qed

theorem create_dir_path_witness:
  "(\<exists>fs'. create_dir sample_disk ''d'' ''2020:01:15 10:00:00'' ''Pictures'' =
            Inr (''d/Pictures/2020/2020-01'', fs') \<and>
          fmlookup fs' ''d/Pictures'' = Some Dir \<and>
          fmlookup fs' ''d/Pictures/2020'' = Some Dir \<and>
          fmlookup fs' ''d/Pictures/2020/2020-01'' = Some Dir \<and>
          fmlookup fs' ''d'' = Some Dir \<and>
          fmlookup fs' ''d/name'' = Some (File sample_file) \<and>
          fmlookup fs' ''d/Videos'' = None) \<and>
   (\<exists>pre. str_split CHR ''/'' ''d/Pictures/2020/2020-01'' = pre @ [''Pictures'', ''2020'', ''2020-01'']) \<and>
   create_dir (fmupd ''d/Pictures'' (File sample_file) (fmupd ''d'' Dir fmempty))
     ''d'' ''2020:01:15 10:00:00'' ''Pictures'' = Inl NotADirectoryError \<and>
   (\<exists>fs'. create_dir sample_disk ''d'' ''2017:06:19 12:26:16'' ''Pictures'' =
            Inr (''d/Pictures/2017/2017-06'', fs') \<and>
          os_path_exists fs' ''d/Pictures/2017/2017-06'') \<and>
   (\<exists>pre. str_split CHR ''/'' ''d/Pictures/2017/2017-06'' = pre @ [''Pictures'', ''2017'', ''2017-06''])"
proof -
  let ?p = "''d/Pictures/2020/2020-01''"
  have sp: "str_split CHR '':'' ''2020:01:15 10:00:00'' = ''2020'' # ''01'' # [''15 10'', ''00'', ''00'']"
    by (simp add: Let_def)
  note t = create_dir_path[where date_string = "''2020:01:15 10:00:00''" and y = "''2020''"
      and m = "''01''" and rest = "[''15 10'', ''00'', ''00'']" and media_dir = "''Pictures''"
      and base_dir = "''d''" and new_dir = ?p and fs = sample_disk]
  have hyp: "str_split CHR '':'' ''2020:01:15 10:00:00'' = ''2020'' # ''01'' # [''15 10'', ''00'', ''00''] \<and>
    ''Pictures'' \<noteq> [] \<and> CHR ''/'' \<notin> set ''Pictures'' \<and>
    ''2020'' \<noteq> [] \<and> CHR ''/'' \<notin> set ''2020'' \<and> CHR ''/'' \<notin> set ''01'' \<and>
    ?p = (if ''d'' = [] \<or> last ''d'' = CHR ''/'' then ''d'' else ''d'' @ ''/'')
              @ ''Pictures'' @ ''/'' @ ''2020'' @ ''/'' @ ''2020'' @ ''-'' @ ''01''"
    using sp by simp
  note x = t[THEN conjunct1, THEN mp, OF hyp]
  have ok: "os_path_exists sample_disk ?p \<or>
        (\<forall>a b. ?p = a @ CHR ''/'' # b \<and> a \<noteq> [] \<and> last a \<noteq> CHR ''/'' \<longrightarrow>
               (\<forall>f. fmlookup sample_disk a \<noteq> Some (File f)))"
    using sample_unblocked by blast
  from x[THEN conjunct1, THEN mp, OF ok] obtain fs' where
    c: "create_dir sample_disk ''d'' ''2020:01:15 10:00:00'' ''Pictures'' = Inr (?p, fs')"
    and l: "\<forall>q. fmlookup fs' q =
                   (if os_path_exists sample_disk q then fmlookup sample_disk q
                    else if \<not> os_path_exists sample_disk ?p \<and>
                            (q = ?p \<or>
                             (\<exists>b. ?p = q @ CHR ''/'' # b \<and> q \<noteq> [] \<and> last q \<noteq> CHR ''/''))
                         then Some Dir else None)"
    by blast
  have l': "\<And>q. fmlookup fs' q =
                   (if os_path_exists sample_disk q then fmlookup sample_disk q
                    else if q = ?p \<or> q \<in> set (ancestors ?p) then Some Dir else None)"
  proof -
    fix q
    have "\<not> os_path_exists sample_disk ?p" by (simp add: os_path_exists_def sample_disk_def)
    with l show "fmlookup fs' q =
                   (if os_path_exists sample_disk q then fmlookup sample_disk q
                    else if q = ?p \<or> q \<in> set (ancestors ?p) then Some Dir else None)"
      unfolding ancestors_iff[of q ?p] by simp
  qed
  have 1: "fmlookup fs' ''d/Pictures'' = Some Dir \<and>
          fmlookup fs' ''d/Pictures/2020'' = Some Dir \<and>
          fmlookup fs' ''d/Pictures/2020/2020-01'' = Some Dir \<and>
          fmlookup fs' ''d'' = Some Dir \<and>
          fmlookup fs' ''d/name'' = Some (File sample_file) \<and>
          fmlookup fs' ''d/Videos'' = None"
    by (simp add: l' ancestors_def os_path_exists_def sample_disk_def)
  from x have 2: "\<exists>pre. str_split CHR ''/'' ?p = pre @ [''Pictures'', ''2020'', ''2020-01'']"
    by simp
  from sample_create_dir_blocked obtain e where
    b: "create_dir (fmupd ''d/Pictures'' (File sample_file) (fmupd ''d'' Dir fmempty))
          ''d'' ''2020:01:15 10:00:00'' ''Pictures'' = Inl e" by blast
  with create_dir_path[where date_string = "''2020:01:15 10:00:00''" and y = "''2020''"
      and m = "''01''" and rest = "[''15 10'', ''00'', ''00'']" and media_dir = "''Pictures''"
      and fs = "fmupd ''d/Pictures'' (File sample_file) (fmupd ''d'' Dir fmempty)"
      and base_dir = "''d''" and e = e] sp
  have "e = NotADirectoryError" by blast
  with b have 3: "create_dir (fmupd ''d/Pictures'' (File sample_file) (fmupd ''d'' Dir fmempty))
     ''d'' ''2020:01:15 10:00:00'' ''Pictures'' = Inl NotADirectoryError" by simp
  have hyp4: "''d/Pictures/2017/2017-06'' =
      (if ''d'' = [] \<or> last ''d'' = CHR ''/'' then ''d'' else ''d'' @ ''/'') @ ''Pictures/2017/2017-06'' \<and>
    (os_path_exists sample_disk ''d/Pictures/2017/2017-06'' \<or>
     (\<forall>a b. ''d/Pictures/2017/2017-06'' = a @ CHR ''/'' # b \<and> a \<noteq> [] \<and> last a \<noteq> CHR ''/'' \<longrightarrow>
            (\<forall>f. fmlookup sample_disk a \<noteq> Some (File f))))"
    using sample_unblocked_2017 by simp
  note 4 = create_dir_path[where base_dir = "''d''" and new_dir = "''d/Pictures/2017/2017-06''"
      and fs = sample_disk, THEN conjunct2, THEN conjunct2, THEN mp, OF hyp4]
  from c 1 2 3 4 show ?thesis by blast
qed

section \<open>The form of the date text\<close>

lemma is_digit_digit_char: "d < 10 \<Longrightarrow> is_digit (digit_char d)"
proof -
  assume "d < 10"
  then have "d = 0 \<or> d = 1 \<or> d = 2 \<or> d = 3 \<or> d = 4 \<or> d = 5 \<or> d = 6 \<or> d = 7 \<or>
             d = 8 \<or> d = 9" by arith
  then show ?thesis by (elim disjE) (simp_all add: digit_char_def is_digit_def)
qed

lemma str_two_digits:
  assumes "n < 100"
  shows "\<exists>a b. pad2 n = [a, b] \<and> is_digit a \<and> is_digit b"
proof (cases "n < 10")
  case True
  then have "pad2 n = [CHR ''0'', digit_char n]" by (simp add: pad2_def str.simps)
  moreover have "is_digit CHR ''0''" by (simp add: is_digit_def)
  ultimately show ?thesis using True is_digit_digit_char by blast
next
  case False
  with assms have d: "n div 10 < 10" by simp
  then have "str (n div 10) = [digit_char (n div 10)]" by (simp add: str.simps)
  with False have "pad2 n = [digit_char (n div 10), digit_char (n mod 10)]"
    by (simp add: pad2_def str.simps[of n])
  moreover have "is_digit (digit_char (n div 10))" "is_digit (digit_char (n mod 10))"
    using d by (simp_all add: is_digit_digit_char)
  ultimately show ?thesis by blast
qed

lemma str_four_digits:
  assumes "1000 \<le> n" "n \<le> 9999"
  shows "\<exists>a b c d. str n = [a, b, c, d] \<and> is_digit a \<and> is_digit b \<and> is_digit c \<and> is_digit d"
proof -
  let ?a = "n div 1000" and ?b = "n div 100 mod 10" and ?c = "n div 10 mod 10" and ?d = "n mod 10"
  have a: "?a < 10" using assms by simp
  have d1: "n div 10 div 10 = n div 100" "n div 100 div 10 = n div 1000"
    by (simp_all add: div_mult2_eq[symmetric])
  have s1: "str (n div 1000) = [digit_char ?a]" using a by (simp add: str.simps)
  have "\<not> n div 100 < 10" using assms by simp
  then have s2: "str (n div 100) = [digit_char ?a, digit_char ?b]"
    using s1 d1 by (simp add: str.simps[of "n div 100"])
  have "\<not> n div 10 < 10" using assms by simp
  then have s3: "str (n div 10) = [digit_char ?a, digit_char ?b, digit_char ?c]"
    using s2 d1 by (simp add: str.simps[of "n div 10"])
  have "\<not> n < 10" using assms by simp
  then have s4: "str n = [digit_char ?a, digit_char ?b, digit_char ?c, digit_char ?d]"
    using s3 by (simp add: str.simps[of n])
  have "is_digit (digit_char ?a)" "is_digit (digit_char ?b)" "is_digit (digit_char ?c)"
    "is_digit (digit_char ?d)"
    using a by (simp_all add: is_digit_digit_char)
  with s4 show ?thesis by blast
qed


text \<open>
  C4, as amended. With a readable tag 36867 the text returned is the value of
  the tag as it is stored; it is not checked against any form. Without one, and
  for a local time with a four-digit year, the text returned has the form
  \<open>dddd:dd:dd dd:dd:dd\<close>: the year, the month and the day on two digits, an hour
  field of two digits, the minute and the second on two digits.
\<close>

theorem get_best_date_form:
  "fmlookup fs full_path = Some (File f) \<longrightarrow>
     (readable_tag f = Some v \<longrightarrow> get_best_date w fs full_path = Inr (v, True)) \<and>
     (readable_tag f = None \<and> localtime w (min (ctime f) (mtime f)) = Inr tm \<and>
      valid_tm tm \<and> 1000 \<le> tm_year tm \<and> tm_year tm \<le> 9999 \<longrightarrow>
        (\<exists>d hh. get_best_date w fs full_path = Inr (d, False) \<and>
                spec_datetime_form d \<and> length hh = 2 \<and>
                d = str_int (tm_year tm) @ '':'' @ pad2 (tm_mon tm) @ '':'' @ pad2 (tm_mday tm) @
                    '' '' @ hh @ '':'' @ pad2 (tm_min tm) @ '':'' @ pad2 (tm_sec tm)))"
proof (intro impI conjI)
  assume isfile: "fmlookup fs full_path = Some (File f)"
  {
    assume "readable_tag f = Some v"
    then obtain d where d: "exif f = Inr (Some d)" "map_of d 36867 = Some v"
      by (auto simp: readable_tag_def split: sum.splits option.splits)
    from d(2) have "d \<noteq> []" by auto
    with isfile d show "get_best_date w fs full_path = Inr (v, True)"
      by (simp add: get_best_date_def Image_open_getexif_def)
  }
  {
    assume h: "readable_tag f = None \<and> localtime w (min (ctime f) (mtime f)) = Inr tm \<and>
      valid_tm tm \<and> 1000 \<le> tm_year tm \<and> tm_year tm \<le> 9999"
    then have nt: "readable_tag f = None" and tm: "localtime w (min (ctime f) (mtime f)) = Inr tm"
      and v: "valid_tm tm" and y: "1000 \<le> tm_year tm" "tm_year tm \<le> 9999" by blast+
    let ?h = "if tm_hour tm mod 12 = 0 then 12 else tm_hour tm mod 12"
    let ?d = "str_int (tm_year tm) @ '':'' @ pad2 (tm_mon tm) @ '':'' @ pad2 (tm_mday tm) @
                    '' '' @ pad2 ?h @ '':'' @ pad2 (tm_min tm) @ '':'' @ pad2 (tm_sec tm)"
    have m: "(if mtime f < ctime f then mtime f else ctime f) = min (ctime f) (mtime f)"
      by (simp add: min_def)
    have g: "get_best_date w fs full_path = Inr (?d, False)"
      unfolding get_best_date_def Let_def Image_open_getexif_def os_path_getctime_def
        os_path_getmtime_def
      using isfile no_tag_lookup[OF nt] m tm by (simp add: directive_def)
    have "1000 \<le> nat (tm_year tm)" "nat (tm_year tm) \<le> 9999" using y by simp_all
    moreover have "str_int (tm_year tm) = str (nat (tm_year tm))" using y by (simp add: str_int_def)
    ultimately obtain y1 y2 y3 y4 where yr: "str_int (tm_year tm) = [y1, y2, y3, y4]"
      "is_digit y1" "is_digit y2" "is_digit y3" "is_digit y4"
      using str_four_digits[of "nat (tm_year tm)"] by auto
    obtain m1 m2 where mo: "pad2 (tm_mon tm) = [m1, m2]" "is_digit m1" "is_digit m2"
      using str_two_digits[of "tm_mon tm"] v by (auto simp: valid_tm_def)
    obtain d1 d2 where da: "pad2 (tm_mday tm) = [d1, d2]" "is_digit d1" "is_digit d2"
      using str_two_digits[of "tm_mday tm"] v by (auto simp: valid_tm_def)
    have "tm_hour tm mod 12 < 100" by (rule less_trans[OF mod_less_divisor]) simp_all
    then have "?h < 100" by simp
    then obtain h1 h2 where ho: "pad2 ?h = [h1, h2]" "is_digit h1" "is_digit h2"
      using str_two_digits[of ?h] by blast
    obtain i1 i2 where mi: "pad2 (tm_min tm) = [i1, i2]" "is_digit i1" "is_digit i2"
      using str_two_digits[of "tm_min tm"] v by (auto simp: valid_tm_def)
    obtain s1 s2 where se: "pad2 (tm_sec tm) = [s1, s2]" "is_digit s1" "is_digit s2"
      using str_two_digits[of "tm_sec tm"] v by (auto simp: valid_tm_def)
    have f: "spec_datetime_form ?d"
      unfolding yr(1) mo(1) da(1) ho(1) mi(1) se(1) spec_datetime_form_def
      using yr(2-) mo(2-) da(2-) ho(2-) mi(2-) se(2-) by simp
    have "length (pad2 ?h) = 2" unfolding ho(1) by simp
    with g f show "\<exists>d hh. get_best_date w fs full_path = Inr (d, False) \<and>
                spec_datetime_form d \<and> length hh = 2 \<and>
                d = str_int (tm_year tm) @ '':'' @ pad2 (tm_mon tm) @ '':'' @ pad2 (tm_mday tm) @
                    '' '' @ hh @ '':'' @ pad2 (tm_min tm) @ '':'' @ pad2 (tm_sec tm)"
      by blast
  }
qed

theorem get_best_date_form_witness:
  "get_best_date sample_world
     (fmupd ''a.jpg''
        (File \<lparr>ctime = 5, mtime = 3, exif = Inr (Some [(36867, ''2020:01:15 10:00:00'')])\<rparr>)
        fmempty)
     ''a.jpg'' = Inr (''2020:01:15 10:00:00'', True) \<and>
   (\<exists>d. get_best_date sample_world sample_disk ''s/name'' = Inr (d, False) \<and>
        spec_datetime_form d)"
proof -
  let ?f = "\<lparr>ctime = 5, mtime = 3, exif = Inr (Some [(36867, ''2020:01:15 10:00:00'')])\<rparr>"
  have "fmlookup (fmupd ''a.jpg'' (File ?f) fmempty) ''a.jpg'' = Some (File ?f)" by simp
  moreover have "readable_tag ?f = Some ''2020:01:15 10:00:00''"
    by (simp add: readable_tag_def)
  ultimately have a: "get_best_date sample_world (fmupd ''a.jpg'' (File ?f) fmempty) ''a.jpg'' =
      Inr (''2020:01:15 10:00:00'', True)"
    using get_best_date_form[of "fmupd ''a.jpg'' (File ?f) fmempty" "''a.jpg''" ?f
        "''2020:01:15 10:00:00''" sample_world]
    by blast
  have "fmlookup sample_disk ''s/name'' = Some (File sample_file)"
    by (simp add: sample_disk_def)
  moreover have "readable_tag sample_file = None"
    by (simp add: readable_tag_def sample_file_def)
  moreover have "localtime sample_world (min (ctime sample_file) (mtime sample_file)) =
      Inr \<lparr>tm_year = 2017, tm_mon = 6, tm_mday = 19, tm_hour = 13, tm_min = 26, tm_sec = 16\<rparr>"
    "valid_tm \<lparr>tm_year = 2017, tm_mon = 6, tm_mday = 19, tm_hour = 13, tm_min = 26, tm_sec = 16\<rparr>"
    by (simp_all add: sample_world_def valid_tm_def)
  ultimately have "\<exists>d. get_best_date sample_world sample_disk ''s/name'' = Inr (d, False) \<and>
        spec_datetime_form d"
    using get_best_date_form[of sample_disk "''s/name''" sample_file _ sample_world
        "\<lparr>tm_year = 2017, tm_mon = 6, tm_mday = 19, tm_hour = 13, tm_min = 26, tm_sec = 16\<rparr>"]
    by auto
  with a show ?thesis by blast
qed

text \<open>
  The claim as it is written fails on both paths. A tag 36867 that holds
  \<open>unknown\<close> is returned as it is. A file without the tag whose earlier time
  stamp falls at 13:26:16 local time gets the hour field \<open>01\<close>, not the \<open>13\<close> of
  the 24-hour clock, because the format uses \<open>%I\<close>. And a time stamp in the year
  33658 gives a year of five digits.
\<close>

theorem get_best_date_form_counterexample:
  "get_best_date sample_world
     (fmupd ''a.jpg'' (File \<lparr>ctime = 5, mtime = 3, exif = Inr (Some [(36867, ''unknown'')])\<rparr>)
        fmempty)
     ''a.jpg'' = Inr (''unknown'', True) \<and>
   \<not> spec_datetime_form ''unknown'' \<and>
   get_best_date sample_world sample_disk ''s/name'' = Inr (''2017:06:19 01:26:16'', False) \<and>
   localtime sample_world 3 =
     Inr \<lparr>tm_year = 2017, tm_mon = 6, tm_mday = 19, tm_hour = 13, tm_min = 26, tm_sec = 16\<rparr> \<and>
   strftime ''%Y:%m:%d %H:%M:%S''
     \<lparr>tm_year = 2017, tm_mon = 6, tm_mday = 19, tm_hour = 13, tm_min = 26, tm_sec = 16\<rparr> =
     ''2017:06:19 13:26:16'' \<and>
   get_best_date
     \<lparr>localtime = (\<lambda>t. Inr \<lparr>tm_year = 33658, tm_mon = 9, tm_mday = 27, tm_hour = 1,
                          tm_min = 46, tm_sec = 40\<rparr>),
      now = 9\<rparr>
     sample_disk ''s/name'' = Inr (''33658:09:27 01:46:40'', False) \<and>
   \<not> spec_datetime_form ''33658:09:27 01:46:40''"
  by (simp add: get_best_date_def Image_open_getexif_def os_path_getctime_def
      os_path_getmtime_def spec_datetime_form_def is_digit_def sample_world_def sample_disk_def
      sample_file_def directive_def pad2_def str_int_def str.simps digit_char_def)

section \<open>The walker\<close>

lemma sum_update_present:
  "map_of xs k = Some c \<Longrightarrow>
     sum_list (map snd (AList.update k v xs)) + c = sum_list (map snd xs) + (v::nat)"
  by (induction xs) (auto split: if_splits)

lemma sum_update_absent:
  "map_of xs k = None \<Longrightarrow>
     sum_list (map snd (AList.update k v xs)) = sum_list (map snd xs) + (v::nat)"
  by (induction xs) (auto split: if_splits)

lemma sum_count_ext:
  "sum_list (map snd (count_ext e xs)) = sum_list (map snd xs) + 1"
proof (cases "map_of xs e")
  case None
  then show ?thesis by (simp add: count_ext_def sum_update_absent)
next
  case (Some c)
  with sum_update_present[OF Some, of "c + 1"] show ?thesis by (simp add: count_ext_def)
qed

text \<open>What \<open>account_file\<close> does, given what \<open>get_best_date\<close> returns.\<close>

lemma account_file_eq:
  "account_file w st root_dir name =
     (case get_best_date w (disk st) (os_path_join root_dir [name]) of
        Inl e \<Rightarrow> Inl e
      | Inr (best_date, had_exif) \<Rightarrow>
          Inr (best_date, lower (snd (os_path_splitext (os_path_join root_dir [name]))),
               st\<lparr>total_files := total_files st + 1,
                  file_exts := count_ext (lower (snd (os_path_splitext (os_path_join root_dir [name]))))
                                 (file_exts st),
                  total_exif := total_exif st + (if had_exif then 1 else 0),
                  log_lines := log_lines st @
                     [(if had_exif then ''(Exif) '' else []) @ best_date @ '' '' @
                      os_path_join root_dir [name]]\<rparr>))"
  by (simp add: account_file_def Let_def log_py_def split: prod.splits sum.splits)

lemma classify_eq:
  "classify file_ext st =
     (if file_ext \<in> set photo_exts then ''Pictures''
      else if file_ext \<in> set video_exts then ''Videos'' else ''Other'',
      st\<lparr>total_photos := total_photos st + (if file_ext \<in> set photo_exts then 1 else 0),
         total_videos := total_videos st +
           (if file_ext \<notin> set photo_exts \<and> file_ext \<in> set video_exts then 1 else 0)\<rparr>)"
  by (simp add: classify_def)



lemma process_file_eq:
  assumes "get_best_date w (disk st) (os_path_join root_dir [name]) = Inr (best_date, had_exif)"
  shows "process_file w dest_dir st root_dir name =
     (let s2 = counted st (os_path_join root_dir [name]) best_date had_exif;
          media_dir = fst (classify (lower (snd (os_path_splitext (os_path_join root_dir [name])))) st)
      in if name \<notin> set ignore_files
         then (case create_dir (disk st) dest_dir best_date media_dir of
                 Inl e \<Rightarrow> Inl e
               | Inr (created_dir, fs1) \<Rightarrow>
                   (case copy_file w fs1 root_dir name created_dir of
                      Inl e \<Rightarrow> Inl e
                    | Inr (new_name, fs2) \<Rightarrow>
                        (case new_name of
                           None \<Rightarrow> Inr (s2\<lparr>disk := fs2\<rparr>)
                         | Some n \<Rightarrow>
                             Inr (if n \<noteq> []
                                  then log_py (''Renamed '' @ name @ '' to '' @ n) (s2\<lparr>disk := fs2\<rparr>)
                                  else s2\<lparr>disk := fs2\<rparr>))))
         else Inr (s2\<lparr>ignored_files := ignored_files st + 1\<rparr>))"
  by (simp add: process_file_def account_file_eq classify_eq assms Let_def counted_def
      split: sum.splits prod.splits option.splits)

lemma process_file_Inl:
  assumes "get_best_date w (disk st) (os_path_join root_dir [name]) = Inl e"
  shows "process_file w dest_dir st root_dir name = Inl e"
  by (simp add: process_file_def account_file_eq assms)

lemma process_file_Inr:
  assumes "process_file w dest_dir st root_dir name = Inr st'"
  shows "\<exists>best_date had_exif fs2 extra.
           get_best_date w (disk st) (os_path_join root_dir [name]) = Inr (best_date, had_exif) \<and>
           st' = (counted st (os_path_join root_dir [name]) best_date had_exif)
                   \<lparr>ignored_files := ignored_files st + (if name \<in> set ignore_files then 1 else 0),
                    log_lines := log_lines (counted st (os_path_join root_dir [name]) best_date had_exif)
                                 @ extra,
                    disk := fs2\<rparr> \<and>
           (name \<in> set ignore_files \<longrightarrow> fs2 = disk st \<and> extra = [])"
proof -
  let ?full = "os_path_join root_dir [name]"
  obtain best_date had_exif where
    g: "get_best_date w (disk st) ?full = Inr (best_date, had_exif)"
    using assms process_file_Inl[of w st root_dir name _ dest_dir]
    by (cases "get_best_date w (disk st) ?full") auto
  let ?s2 = "counted st ?full best_date had_exif"
  let ?md = "fst (classify (lower (snd (os_path_splitext ?full))) st)"
  have ds: "disk ?s2 = disk st" "ignored_files ?s2 = ignored_files st"
    by (simp_all add: counted_def)
  note eq = process_file_eq[OF g, of dest_dir, unfolded Let_def]
  show ?thesis
  proof (cases "name \<in> set ignore_files")
    case True
    with assms eq have "st' = ?s2\<lparr>ignored_files := ignored_files st + 1\<rparr>" by simp
    then have "st' = ?s2\<lparr>ignored_files := ignored_files st + (if name \<in> set ignore_files then 1 else 0),
                    log_lines := log_lines ?s2 @ [], disk := disk st\<rparr>"
      using True ds by simp
    with g True show ?thesis by blast
  next
    case False
    with assms eq obtain created_dir fs1 where
      cd: "create_dir (disk st) dest_dir best_date ?md = Inr (created_dir, fs1)"
      by (cases "create_dir (disk st) dest_dir best_date ?md") auto
    with assms eq False obtain new_name fs2 where
      cf: "copy_file w fs1 root_dir name created_dir = Inr (new_name, fs2)"
      by (cases "copy_file w fs1 root_dir name created_dir") auto
    from assms eq False cd cf have st': "st' = (case new_name of
                           None \<Rightarrow> ?s2\<lparr>disk := fs2\<rparr>
                         | Some n \<Rightarrow> if n \<noteq> []
                                  then log_py (''Renamed '' @ name @ '' to '' @ n) (?s2\<lparr>disk := fs2\<rparr>)
                                  else ?s2\<lparr>disk := fs2\<rparr>)"
      by (cases new_name) auto
    have "\<exists>extra. st' = ?s2\<lparr>ignored_files := ignored_files st + (if name \<in> set ignore_files then 1 else 0),
                    log_lines := log_lines ?s2 @ extra, disk := fs2\<rparr>"
    proof (cases "\<exists>n. new_name = Some n \<and> n \<noteq> []")
      case True
      then obtain n where "new_name = Some n" "n \<noteq> []" by blast
      with st' False have "st' = ?s2\<lparr>ignored_files := ignored_files st + (if name \<in> set ignore_files then 1 else 0),
                    log_lines := log_lines ?s2 @ [''Renamed '' @ name @ '' to '' @ n], disk := fs2\<rparr>"
        using ds by (simp add: log_py_def)
      then show ?thesis by blast
    next
      case n: False
      with st' have "st' = ?s2\<lparr>disk := fs2\<rparr>" by (cases new_name) auto
      with False have "st' = ?s2\<lparr>ignored_files := ignored_files st + (if name \<in> set ignore_files then 1 else 0),
                    log_lines := log_lines ?s2 @ [], disk := fs2\<rparr>"
        using ds by simp
      then show ?thesis by blast
    qed
    with g False show ?thesis by blast
  qed
qed


lemma counted_fields:
  "total_files (counted st full_path best_date had_exif) = total_files st + 1"
  "file_exts (counted st full_path best_date had_exif) =
     count_ext (lower (snd (os_path_splitext full_path))) (file_exts st)"
  "total_exif (counted st full_path best_date had_exif) =
     total_exif st + (if had_exif then 1 else 0)"
  "log_lines (counted st full_path best_date had_exif) =
     log_lines st @ [(if had_exif then ''(Exif) '' else []) @ best_date @ '' '' @ full_path]"
  "total_photos (counted st full_path best_date had_exif) =
     total_photos st + (if lower (snd (os_path_splitext full_path)) \<in> set photo_exts then 1 else 0)"
  "total_videos (counted st full_path best_date had_exif) =
     total_videos st +
       (if lower (snd (os_path_splitext full_path)) \<notin> set photo_exts \<and>
           lower (snd (os_path_splitext full_path)) \<in> set video_exts
        then 1 else 0)"
  "ignored_files (counted st full_path best_date had_exif) = ignored_files st"
  "disk (counted st full_path best_date had_exif) = disk st"
  by (simp_all add: counted_def)

text \<open>
  C5. Let \<open>get_best_date\<close> return a date for the file. When the name is in the
  ignore list, \<open>process_file\<close> raises nothing and changes the state in this way
  only: the total and the ignored counter go up by one, the extension is counted
  in the histogram, the exif counter goes up when the date is trusted, the line
  of the file is logged, and the photo or video counter follows the extension.
  The file system is unchanged: no directory is created and nothing is copied.
  When the name is not in the list and the file is processed, the total, the
  histogram, the exif counter, the photo and video counters get the same values,
  the log receives the same line first, and the ignored counter is unchanged.
\<close>

theorem ignored_file_counted:
  "full_path = os_path_join root_dir [name] \<and>
   file_ext = lower (snd (os_path_splitext full_path)) \<and>
   get_best_date w (disk st) full_path = Inr (best_date, had_exif) \<and>
   line = (if had_exif then ''(Exif) '' else []) @ best_date @ '' '' @ full_path \<and>
   photos = total_photos st + (if file_ext \<in> set photo_exts then 1 else 0) \<and>
   videos = total_videos st +
              (if file_ext \<notin> set photo_exts \<and> file_ext \<in> set video_exts then 1 else 0) \<longrightarrow>
     (name \<in> set ignore_files \<longrightarrow>
        process_file w dest_dir st root_dir name =
          Inr (st\<lparr>total_files := total_files st + 1,
                  ignored_files := ignored_files st + 1,
                  file_exts := count_ext file_ext (file_exts st),
                  total_exif := total_exif st + (if had_exif then 1 else 0),
                  log_lines := log_lines st @ [line],
                  total_photos := photos,
                  total_videos := videos\<rparr>)) \<and>
     (name \<notin> set ignore_files \<and> process_file w dest_dir st root_dir name = Inr st' \<longrightarrow>
        total_files st' = total_files st + 1 \<and>
        ignored_files st' = ignored_files st \<and>
        file_exts st' = count_ext file_ext (file_exts st) \<and>
        total_exif st' = total_exif st + (if had_exif then 1 else 0) \<and>
        (\<exists>extra. log_lines st' = log_lines st @ [line] @ extra) \<and>
        total_photos st' = photos \<and>
        total_videos st' = videos)"
proof (intro impI)
  assume h: "full_path = os_path_join root_dir [name] \<and>
   file_ext = lower (snd (os_path_splitext full_path)) \<and>
   get_best_date w (disk st) full_path = Inr (best_date, had_exif) \<and>
   line = (if had_exif then ''(Exif) '' else []) @ best_date @ '' '' @ full_path \<and>
   photos = total_photos st + (if file_ext \<in> set photo_exts then 1 else 0) \<and>
   videos = total_videos st +
              (if file_ext \<notin> set photo_exts \<and> file_ext \<in> set video_exts then 1 else 0)"
  then have fp: "full_path = os_path_join root_dir [name]"
    and fe: "file_ext = lower (snd (os_path_splitext full_path))"
    and g: "get_best_date w (disk st) (os_path_join root_dir [name]) = Inr (best_date, had_exif)"
    and ln: "line = (if had_exif then ''(Exif) '' else []) @ best_date @ '' '' @ full_path"
    and ph: "photos = total_photos st + (if file_ext \<in> set photo_exts then 1 else 0)"
    and vi: "videos = total_videos st +
              (if file_ext \<notin> set photo_exts \<and> file_ext \<in> set video_exts then 1 else 0)"
    by blast+
  let ?c = "counted st (os_path_join root_dir [name]) best_date had_exif"
  have ign: "process_file w dest_dir st root_dir name =
          Inr (st\<lparr>total_files := total_files st + 1,
                  ignored_files := ignored_files st + 1,
                  file_exts := count_ext file_ext (file_exts st),
                  total_exif := total_exif st + (if had_exif then 1 else 0),
                  log_lines := log_lines st @ [line],
                  total_photos := photos,
                  total_videos := videos\<rparr>)"
    if "name \<in> set ignore_files"
    unfolding process_file_eq[OF g] Let_def using that
    by (simp add: counted_def fp fe ln ph vi)
  have cop: "total_files st' = total_files st + 1 \<and>
        ignored_files st' = ignored_files st \<and>
        file_exts st' = count_ext file_ext (file_exts st) \<and>
        total_exif st' = total_exif st + (if had_exif then 1 else 0) \<and>
        (\<exists>extra. log_lines st' = log_lines st @ [line] @ extra) \<and>
        total_photos st' = photos \<and>
        total_videos st' = videos"
    if n: "name \<notin> set ignore_files \<and> process_file w dest_dir st root_dir name = Inr st'"
  proof -
    from n have ni: "name \<notin> set ignore_files"
      and p: "process_file w dest_dir st root_dir name = Inr st'" by blast+
    from process_file_Inr[OF p] g ni obtain fs2 extra where
      st': "st' = ?c\<lparr>ignored_files := ignored_files st + 0,
                    log_lines := log_lines ?c @ extra, disk := fs2\<rparr>"
      by auto
    have "log_lines st' = log_lines st @ [line] @ extra"
      by (simp add: st' counted_fields fp ln)
    then have "\<exists>extra. log_lines st' = log_lines st @ [line] @ extra" by blast
    then show ?thesis by (simp add: st' counted_fields fp fe ph vi)
  qed
  from ign cop show "(name \<in> set ignore_files \<longrightarrow>
        process_file w dest_dir st root_dir name =
          Inr (st\<lparr>total_files := total_files st + 1,
                  ignored_files := ignored_files st + 1,
                  file_exts := count_ext file_ext (file_exts st),
                  total_exif := total_exif st + (if had_exif then 1 else 0),
                  log_lines := log_lines st @ [line],
                  total_photos := photos,
                  total_videos := videos\<rparr>)) \<and>
     (name \<notin> set ignore_files \<and> process_file w dest_dir st root_dir name = Inr st' \<longrightarrow>
        total_files st' = total_files st + 1 \<and>
        ignored_files st' = ignored_files st \<and>
        file_exts st' = count_ext file_ext (file_exts st) \<and>
        total_exif st' = total_exif st + (if had_exif then 1 else 0) \<and>
        (\<exists>extra. log_lines st' = log_lines st @ [line] @ extra) \<and>
        total_photos st' = photos \<and>
        total_videos st' = videos)"
    by blast
qed

lemma sample_process_copy:
  "\<exists>st'. process_file sample_world ''d''
          (initial_state
             (fmupd ''s/a.jpg''
                (File \<lparr>ctime = 5, mtime = 3, exif = Inr (Some [(36867, ''2020:01:15 10:00:00'')])\<rparr>)
                (fmupd ''s'' Dir (fmupd ''d'' Dir fmempty))))
          ''s'' ''a.jpg'' = Inr st' \<and>
        fmlookup (disk st') ''d/Pictures/2020/2020-01/a.jpg'' =
          Some (File \<lparr>ctime = 9, mtime = 3, exif = Inr (Some [(36867, ''2020:01:15 10:00:00'')])\<rparr>)"
  by (simp add: process_file_def account_file_def classify_def log_py_def initial_state_def
      count_ext_def photo_exts_def video_exts_def ignore_files_def
      get_best_date_def Image_open_getexif_def
      os_path_splitext_def rfind_def lower_def lower_char_def
      create_dir_def os_path_join_def join2_def os_path_exists_def os_makedirs_def
      ancestors_def mkdir_missing_def Let_def
      copy_file_def copy_loop.simps shutil_copy2_def os_path_dirname_def
      sample_world_def)

theorem ignored_file_counted_witness:
  "process_file sample_world ''d''
     (initial_state (fmupd ''s/Thumbs.db'' (File sample_file) (fmupd ''s'' Dir fmempty)))
     ''s'' ''Thumbs.db'' =
   Inr \<lparr>total_files = 1, ignored_files = 1, total_exif = 0, total_photos = 0, total_videos = 0,
        file_exts = [(''.db'', 1)], log_lines = [''2017:06:19 01:26:16 s/Thumbs.db''],
        disk = fmupd ''s/Thumbs.db'' (File sample_file) (fmupd ''s'' Dir fmempty)\<rparr> \<and>
   (\<exists>st'. process_file sample_world ''d''
          (initial_state
             (fmupd ''s/a.jpg''
                (File \<lparr>ctime = 5, mtime = 3, exif = Inr (Some [(36867, ''2020:01:15 10:00:00'')])\<rparr>)
                (fmupd ''s'' Dir (fmupd ''d'' Dir fmempty))))
          ''s'' ''a.jpg'' = Inr st' \<and>
        total_files st' = 1 \<and> ignored_files st' = 0 \<and> total_exif st' = 1 \<and>
        file_exts st' = [(''.jpg'', 1)] \<and> total_photos st' = 1 \<and> total_videos st' = 0 \<and>
        (\<exists>extra. log_lines st' = [''(Exif) 2020:01:15 10:00:00 s/a.jpg''] @ extra))"
proof -
  let ?fs = "fmupd ''s/Thumbs.db'' (File sample_file) (fmupd ''s'' Dir fmempty)"
  have j: "os_path_join ''s'' [''Thumbs.db''] = ''s/Thumbs.db''"
    by (simp add: os_path_join_def join2_def)
  have g: "get_best_date sample_world (disk (initial_state ?fs)) (os_path_join ''s'' [''Thumbs.db'']) =
             Inr (''2017:06:19 01:26:16'', False)"
    unfolding j
    by (simp add: get_best_date_def Image_open_getexif_def os_path_getctime_def
        os_path_getmtime_def initial_state_def sample_world_def sample_file_def directive_def
        pad2_def str_int_def str.simps digit_char_def)
  have e: "lower (snd (os_path_splitext ''s/Thumbs.db'')) = ''.db''"
    by (simp add: os_path_splitext_def rfind_def lower_def lower_char_def)
  have i: "''Thumbs.db'' \<in> set ignore_files" by (simp add: ignore_files_def)
  from ignored_file_counted[of "''s/Thumbs.db''" "''s''" "''Thumbs.db''" "''.db''" sample_world
      "initial_state ?fs" "''2017:06:19 01:26:16''" False "''2017:06:19 01:26:16 s/Thumbs.db''"
      0 0 "''d''"] g i j e
  have 1: "process_file sample_world ''d'' (initial_state ?fs) ''s'' ''Thumbs.db'' =
   Inr \<lparr>total_files = 1, ignored_files = 1, total_exif = 0, total_photos = 0, total_videos = 0,
        file_exts = [(''.db'', 1)], log_lines = [''2017:06:19 01:26:16 s/Thumbs.db''],
        disk = ?fs\<rparr>"
    by (simp add: initial_state_def count_ext_def photo_exts_def video_exts_def)
  let ?fa = "fmupd ''s/a.jpg''
                (File \<lparr>ctime = 5, mtime = 3, exif = Inr (Some [(36867, ''2020:01:15 10:00:00'')])\<rparr>)
                (fmupd ''s'' Dir (fmupd ''d'' Dir fmempty))"
  from sample_process_copy obtain st' where
    p: "process_file sample_world ''d'' (initial_state ?fa) ''s'' ''a.jpg'' = Inr st'" by blast
  have ja: "os_path_join ''s'' [''a.jpg''] = ''s/a.jpg''"
    by (simp add: os_path_join_def join2_def)
  have ga: "get_best_date sample_world (disk (initial_state ?fa)) ''s/a.jpg'' =
             Inr (''2020:01:15 10:00:00'', True)"
    by (simp add: get_best_date_def Image_open_getexif_def initial_state_def)
  have ea: "lower (snd (os_path_splitext ''s/a.jpg'')) = ''.jpg''"
    by (simp add: os_path_splitext_def rfind_def lower_def lower_char_def)
  have ia: "''a.jpg'' \<notin> set ignore_files" by (simp add: ignore_files_def)
  from ignored_file_counted[of "''s/a.jpg''" "''s''" "''a.jpg''" "''.jpg''" sample_world
      "initial_state ?fa" "''2020:01:15 10:00:00''" True "''(Exif) 2020:01:15 10:00:00 s/a.jpg''"
      1 0 "''d''" st'] ga ia ja ea p
  have "total_files st' = 1 \<and> ignored_files st' = 0 \<and> total_exif st' = 1 \<and>
        file_exts st' = [(''.jpg'', 1)] \<and> total_photos st' = 1 \<and> total_videos st' = 0 \<and>
        (\<exists>extra. log_lines st' = [''(Exif) 2020:01:15 10:00:00 s/a.jpg''] @ extra)"
    by (simp add: initial_state_def count_ext_def photo_exts_def video_exts_def)
  with p 1 show ?thesis by blast
qed


lemma process_file_step:
  assumes "process_file w dest_dir st root_dir name = Inr st'"
  shows "total_files st' = total_files st + 1"
    and "sum_list (map snd (file_exts st')) = sum_list (map snd (file_exts st)) + 1"
    and "(total_photos st' = total_photos st + 1 \<and> total_videos st' = total_videos st) \<or>
         (total_photos st' = total_photos st \<and> total_videos st' = total_videos st + 1) \<or>
         (total_photos st' = total_photos st \<and> total_videos st' = total_videos st)"
proof -
  from process_file_Inr[OF assms] obtain best_date had_exif fs2 extra where
    st': "st' = (counted st (os_path_join root_dir [name]) best_date had_exif)
                   \<lparr>ignored_files := ignored_files st + (if name \<in> set ignore_files then 1 else 0),
                    log_lines := log_lines (counted st (os_path_join root_dir [name]) best_date had_exif)
                                 @ extra,
                    disk := fs2\<rparr>"
    by blast
  show "total_files st' = total_files st + 1" by (simp add: st' counted_fields)
  show "sum_list (map snd (file_exts st')) = sum_list (map snd (file_exts st)) + 1"
    by (simp add: st' counted_fields sum_count_ext)
  show "(total_photos st' = total_photos st + 1 \<and> total_videos st' = total_videos st) \<or>
         (total_photos st' = total_photos st \<and> total_videos st' = total_videos st + 1) \<or>
         (total_photos st' = total_photos st \<and> total_videos st' = total_videos st)"
    by (simp add: st' counted_fields)
qed

lemma process_file_invariant:
  assumes "counters_invariant st" and "process_file w dest_dir st root_dir name = Inr st'"
  shows "counters_invariant st'"
  using assms(1) process_file_step[OF assms(2)]
  unfolding counters_invariant_def by linarith

lemma process_files_invariant:
  "counters_invariant st \<Longrightarrow> process_files w dest_dir st root_dir files = Inr st' \<Longrightarrow>
     counters_invariant st'"
proof (induction files arbitrary: st)
  case Nil
  then show ?case by simp
next
  case (Cons name files)
  from Cons.prems(2) obtain st1 where
    p: "process_file w dest_dir st root_dir name = Inr st1"
    and r: "process_files w dest_dir st1 root_dir files = Inr st'"
    by (auto split: sum.splits)
  from Cons.IH[OF process_file_invariant[OF Cons.prems(1) p] r] show ?case .
qed

lemma main_loop_invariant:
  "counters_invariant st \<Longrightarrow> main_loop w dest_dir st walk = Inr st' \<Longrightarrow>
     counters_invariant st'"
proof (induction walk arbitrary: st)
  case Nil
  then show ?case by simp
next
  case (Cons d walk)
  obtain root_dir dirs files where d: "d = (root_dir, dirs, files)" by (cases d) auto
  from Cons.prems(2) obtain st1 where
    p: "process_files w dest_dir st root_dir files = Inr st1"
    and r: "main_loop w dest_dir st1 walk = Inr st'"
    by (auto simp: d split: sum.splits)
  from Cons.IH[OF process_files_invariant[OF Cons.prems(1) p] r] show ?case .
qed

text \<open>
  C10. Every processed file adds one to the total and one to the sum of the
  histogram, and increments the photo counter, or the video counter, or neither.
  So the invariant (the histogram sums to the total, and photos plus videos do
  not exceed it) is kept by every file; it holds at the start, and at the end of
  every run of the loop that was not stopped by an exception.
\<close>

theorem counters_invariant_kept:
  "(process_file w dest_dir st root_dir name = Inr st' \<longrightarrow>
      total_files st' = total_files st + 1 \<and>
      sum_list (map snd (file_exts st')) = sum_list (map snd (file_exts st)) + 1 \<and>
      ((total_photos st' = total_photos st + 1 \<and> total_videos st' = total_videos st) \<or>
       (total_photos st' = total_photos st \<and> total_videos st' = total_videos st + 1) \<or>
       (total_photos st' = total_photos st \<and> total_videos st' = total_videos st)) \<and>
      (counters_invariant st \<longrightarrow> counters_invariant st')) \<and>
   counters_invariant (initial_state fs) \<and>
   (main_loop w dest_dir (initial_state fs) walk = Inr st_end \<longrightarrow> counters_invariant st_end)"
proof (intro conjI impI)
  assume p: "process_file w dest_dir st root_dir name = Inr st'"
  show "total_files st' = total_files st + 1" by (rule process_file_step(1)[OF p])
  show "sum_list (map snd (file_exts st')) = sum_list (map snd (file_exts st)) + 1"
    by (rule process_file_step(2)[OF p])
  show "(total_photos st' = total_photos st + 1 \<and> total_videos st' = total_videos st) \<or>
       (total_photos st' = total_photos st \<and> total_videos st' = total_videos st + 1) \<or>
       (total_photos st' = total_photos st \<and> total_videos st' = total_videos st)"
    by (rule process_file_step(3)[OF p])
  show "counters_invariant st'" if "counters_invariant st"
    by (rule process_file_invariant[OF that p])
next
  show i: "counters_invariant (initial_state fs)"
    by (simp add: counters_invariant_def initial_state_def)
  show "counters_invariant st_end"
    if "main_loop w dest_dir (initial_state fs) walk = Inr st_end"
    by (rule main_loop_invariant[OF i that])
qed


lemma sample_run:
  "\<exists>st. main_loop sample_world ''d''
          (initial_state
             (fmupd ''s/a.jpg''
                (File \<lparr>ctime = 5, mtime = 3, exif = Inr (Some [(36867, ''2020:01:15 10:00:00'')])\<rparr>)
                (fmupd ''s/Thumbs.db'' (File sample_file) (fmupd ''s'' Dir (fmupd ''d'' Dir fmempty)))))
          [(''s'', [], [''Thumbs.db'', ''a.jpg''])] = Inr st \<and>
        total_files st = 2 \<and> ignored_files st = 1 \<and> total_photos st = 1 \<and> total_exif st = 1 \<and>
        file_exts st = [(''.db'', 1), (''.jpg'', 1)] \<and>
        fmlookup (disk st) ''d/Pictures/2020/2020-01/a.jpg'' =
          Some (File \<lparr>ctime = 9, mtime = 3, exif = Inr (Some [(36867, ''2020:01:15 10:00:00'')])\<rparr>)"
  by (simp add: process_file_def account_file_def classify_def log_py_def initial_state_def
      count_ext_def photo_exts_def video_exts_def ignore_files_def
      get_best_date_def Image_open_getexif_def os_path_getctime_def os_path_getmtime_def
      directive_def pad2_def str_int_def str.simps digit_char_def
      os_path_splitext_def rfind_def lower_def lower_char_def
      create_dir_def os_path_join_def join2_def os_path_exists_def os_makedirs_def
      ancestors_def mkdir_missing_def Let_def
      copy_file_def copy_loop.simps new_name_at_def shutil_copy2_def os_path_dirname_def
      sample_world_def sample_file_def)


theorem counters_invariant_kept_witness:
  "(\<exists>st. main_loop sample_world ''d''
          (initial_state
             (fmupd ''s/a.jpg''
                (File \<lparr>ctime = 5, mtime = 3, exif = Inr (Some [(36867, ''2020:01:15 10:00:00'')])\<rparr>)
                (fmupd ''s/Thumbs.db'' (File sample_file) (fmupd ''s'' Dir (fmupd ''d'' Dir fmempty)))))
          [(''s'', [], [''Thumbs.db'', ''a.jpg''])] = Inr st \<and>
        total_files st = 2 \<and> total_photos st = 1 \<and> counters_invariant st) \<and>
   (\<exists>st'. process_file sample_world ''d''
          (initial_state
             (fmupd ''s/a.jpg''
                (File \<lparr>ctime = 5, mtime = 3, exif = Inr (Some [(36867, ''2020:01:15 10:00:00'')])\<rparr>)
                (fmupd ''s'' Dir (fmupd ''d'' Dir fmempty))))
          ''s'' ''a.jpg'' = Inr st' \<and>
        total_files st' = 1 \<and> sum_list (map snd (file_exts st')) = 1 \<and> counters_invariant st')"
proof -
  let ?fs = "fmupd ''s/a.jpg''
                (File \<lparr>ctime = 5, mtime = 3, exif = Inr (Some [(36867, ''2020:01:15 10:00:00'')])\<rparr>)
                (fmupd ''s/Thumbs.db'' (File sample_file) (fmupd ''s'' Dir (fmupd ''d'' Dir fmempty)))"
  from sample_run obtain st where
    run: "main_loop sample_world ''d'' (initial_state ?fs) [(''s'', [], [''Thumbs.db'', ''a.jpg''])] = Inr st"
    and c: "total_files st = 2" "total_photos st = 1"
    by blast
  from counters_invariant_kept[where w = sample_world and dest_dir = "''d''" and fs = ?fs
      and walk = "[(''s'', [], [''Thumbs.db'', ''a.jpg''])]" and st_end = st] run
  have "counters_invariant st" by blast
  with run c have 1: "\<exists>st. main_loop sample_world ''d'' (initial_state ?fs)
          [(''s'', [], [''Thumbs.db'', ''a.jpg''])] = Inr st \<and>
        total_files st = 2 \<and> total_photos st = 1 \<and> counters_invariant st" by blast
  let ?fa = "fmupd ''s/a.jpg''
                (File \<lparr>ctime = 5, mtime = 3, exif = Inr (Some [(36867, ''2020:01:15 10:00:00'')])\<rparr>)
                (fmupd ''s'' Dir (fmupd ''d'' Dir fmempty))"
  from sample_process_copy obtain st' where
    p: "process_file sample_world ''d'' (initial_state ?fa) ''s'' ''a.jpg'' = Inr st'" by blast
  note k = counters_invariant_kept[where w = sample_world and dest_dir = "''d''"
      and st = "initial_state ?fa" and root_dir = "''s''" and name = "''a.jpg''" and st' = st'
      and fs = ?fa]
  from k p have "total_files st' = total_files (initial_state ?fa) + 1"
    and "sum_list (map snd (file_exts st')) = sum_list (map snd (file_exts (initial_state ?fa))) + 1"
    and "counters_invariant st'" by blast+
  then have "total_files st' = 1 \<and> sum_list (map snd (file_exts st')) = 1 \<and> counters_invariant st'"
    by (simp add: initial_state_def)
  with p 1 show ?thesis by blast
qed

end
